theory Spec2Isabelle
  imports Main
begin

section \<open>JavaScript values used by the bot\<close>

text \<open>
  A JavaScript number that the code computes from integers is an integer or \<open>NaN\<close>
  (arithmetic on \<open>undefined\<close>); reading an array outside its bounds gives
  \<open>undefined\<close>, reading a property of \<open>undefined\<close> throws a \<open>TypeError\<close>.
\<close>

datatype jsnum = Num int | NaN

datatype error = TypeError | DepthError

definition js_index :: "'a list \<Rightarrow> int \<Rightarrow> 'a option" where
  "js_index xs i = (if 0 \<le> i \<and> i < int (length xs) then Some (xs ! nat i) else None)"

text \<open>\<open>a + b\<close> and \<open>a - b\<close> where either side may be \<open>NaN\<close>.\<close>

fun js_add :: "jsnum \<Rightarrow> jsnum \<Rightarrow> jsnum" where
  "js_add (Num a) (Num b) = Num (a + b)"
| "js_add _ _ = NaN"

fun js_sub :: "jsnum \<Rightarrow> jsnum \<Rightarrow> jsnum" where
  "js_sub (Num a) (Num b) = Num (a - b)"
| "js_sub _ _ = NaN"

text \<open>\<open>a === b\<close> on numbers: false whenever a side is \<open>NaN\<close>.\<close>

fun js_eq :: "jsnum \<Rightarrow> jsnum \<Rightarrow> bool" where
  "js_eq (Num a) (Num b) = (a = b)"
| "js_eq _ _ = False"

text \<open>A number read from an array: \<open>undefined\<close> turns into \<open>NaN\<close> under arithmetic.\<close>

fun to_num :: "int option \<Rightarrow> jsnum" where
  "to_num (Some n) = Num n"
| "to_num None = NaN"

text \<open>
  \<open>s.match(/A|B|.../)\<close> for the literal alternations of \<open>variantRegexes\<close>: some
  alternative occurs as a substring of \<open>s\<close>.
\<close>

fun starts_with :: "string \<Rightarrow> string \<Rightarrow> bool" where
  "starts_with [] s = True"
| "starts_with (p # ps) [] = False"
| "starts_with (p # ps) (c # cs) = (p = c \<and> starts_with ps cs)"

fun includes_str :: "string \<Rightarrow> string \<Rightarrow> bool" where
  "includes_str p [] = (p = [])"
| "includes_str p (c # cs) = (starts_with p (c # cs) \<or> includes_str p cs)"

definition js_match :: "string list \<Rightarrow> string \<Rightarrow> bool" where
  "js_match alts s = list_ex (\<lambda>p. includes_str p s) alts"

section \<open>Identities, cards and variants\<close>

record identity =
  suitIndex :: int
  rank :: int

datatype clue_type = COLOUR | RANK

record base_clue =
  clue_type :: clue_type
  clue_value :: int

record actual_card = identity +
  order :: int
  clued :: bool
  newly_clued :: bool
  clues :: "base_clue list"

record card = actual_card +
  possible :: "identity list"
  inferred :: "identity list"
  finessed :: bool
  chop_moved :: bool
  reset :: bool

text \<open>A variant; a property the variant does not have is \<open>None\<close>, or \<open>False\<close> for a flag.\<close>

record variant =
  suits :: "string list"
  criticalRank :: "int option"
  specialRank :: "int option"
  specialRankAllClueColors :: bool
  specialRankAllClueRanks :: bool
  specialRankNoClueColors :: bool
  specialRankNoClueRanks :: bool
  specialRankDeceptive :: bool
  chimneys :: bool
  funnels :: bool
  clueRanks :: "int list option"

definition whitish :: "string list" where
  "whitish = [''White'', ''Gray'', ''Light'', ''Null'']"

definition rainbowish :: "string list" where
  "rainbowish = [''Rainbow'', ''Omni'']"

definition brownish :: "string list" where
  "brownish = [''Brown'', ''Muddy'', ''Cocoa'', ''Null'']"

definition pinkish :: "string list" where
  "pinkish = [''Pink'', ''Omni'']"

definition dark :: "string list" where
  "dark = [''Black'', ''Dark'', ''Gray'', ''Cocoa'']"

text \<open>
  \<open>cardCount(variant, {suitIndex, rank})\<close>: \<open>variant.suits[suitIndex].match\<close> throws
  when the suit index is outside the suit list; the table lookup gives \<open>undefined\<close>
  (here \<open>None\<close>) for a rank outside 1..5.
\<close>

definition cardCount :: "variant \<Rightarrow> identity \<Rightarrow> error + int option" where
  "cardCount v i =
     (case js_index (suits v) (suitIndex i) of
        None \<Rightarrow> Inl TypeError
      | Some suit \<Rightarrow>
          if js_match dark suit then Inr (Some 1)
          else if criticalRank v = Some (rank i) then Inr (Some 1)
          else Inr (js_index [3, 2, 2, 2, 1] (rank i - 1)))"

text \<open>
  The remainder \<open>a % b\<close> of two integers: \<open>NaN\<close> for \<open>b = 0\<close>, else with the sign
  of \<open>a\<close>.
\<close>

definition js_rem :: "int \<Rightarrow> int \<Rightarrow> jsnum" where
  "js_rem a b = (if b = 0 then NaN else Num (sgn a * (\<bar>a\<bar> mod \<bar>b\<bar>)))"

record clue = base_clue +
  clue_target :: int

text \<open>
  \<open>cardTouched(card, variant, clue)\<close>. A suit index outside the suit list gives the
  suit \<open>undefined\<close>, on which \<open>suit.match\<close> throws.
\<close>

definition cardTouched :: "identity \<Rightarrow> variant \<Rightarrow> 'a base_clue_scheme \<Rightarrow> error + bool" where
  "cardTouched c v cl =
     (case js_index (suits v) (suitIndex c) of
        None \<Rightarrow> Inl TypeError
      | Some suit \<Rightarrow>
          if suit = ''Null'' \<or> suit = ''Dark Null'' then Inr False
          else if suit = ''Omni'' \<or> suit = ''Dark Omni'' then Inr True
          else (case clue_type cl of
                  COLOUR \<Rightarrow>
                    if js_match whitish suit then Inr False
                    else if js_match rainbowish suit then Inr True
                    else if suit = ''Prism'' \<or> suit = ''Dark Prism''
                    then (let colourlessCount =
                                length (filter (\<lambda>s. js_match rainbowish s \<or> js_match whitish s
                                                   \<or> js_match [''Prism''] s) (suits v))
                          in Inr (js_eq (js_rem (rank c - 1) (int (length (suits v)) - int colourlessCount))
                                    (Num (clue_value cl))))
                    else if Some (rank c) = specialRank v \<and> specialRankAllClueColors v then Inr True
                    else if Some (rank c) = specialRank v \<and> specialRankNoClueColors v then Inr False
                    else Inr (suitIndex c = clue_value cl)
                | RANK \<Rightarrow>
                    if js_match brownish suit then Inr False
                    else if js_match pinkish suit then Inr True
                    else if Some (rank c) = specialRank v \<and> specialRankAllClueRanks v then Inr True
                    else if Some (rank c) = specialRank v \<and> specialRankNoClueRanks v then Inr False
                    else if Some (rank c) = specialRank v \<and> specialRankDeceptive v
                    then Inr (suitIndex c mod 4 + (if specialRank v = Some 1 then 2 else 1) = clue_value cl)
                    else if chimneys v then Inr (rank c \<ge> clue_value cl)
                    else if funnels v then Inr (rank c \<le> clue_value cl)
                    else Inr (rank c = clue_value cl)))"


section \<open>The authoritative state and its utilities\<close>

text \<open>
  A \<open>Hand\<close> is the array of its cards with a back reference \<open>state\<close> to the game
  object that owns it; game objects live in a store and are named by their address.
\<close>

type_synonym addr = int

record hand =
  hand_cards :: "card list"
  hand_state :: addr

text \<open>
  The fields of the \<open>State\<close> class that the code under study reads or writes. The
  utilities hand \<open>state.suits\<close> to \<open>cardCount\<close> as its variant argument, the clue
  finder reads the same object as \<open>state.variant\<close>: the field is \<open>variant\<close> here.
\<close>

record state =
  tableID :: int
  playerNames :: "string list"
  ourPlayerIndex :: int
  variant :: variant
  in_progress :: bool
  numPlayers :: int
  hands :: "hand list"
  deck :: "actual_card list"
  play_stacks :: "int list"
  hypo_stacks :: "int list list"
  discard_stacks :: "int list list"
  max_ranks :: "int list"
  turn_count :: int
  clue_tokens :: int
  strikes :: int
  early_game :: bool
  rewindDepth :: int
  copyDepth :: int
  cardsLeft :: int
  score :: int

text \<open>\<open>isCritical\<close>: the discard row is read first, then \<open>cardCount\<close> is called.\<close>

definition isCritical :: "state \<Rightarrow> identity \<Rightarrow> error + bool" where
  "isCritical s i =
     (case js_index (discard_stacks s) (suitIndex i) of
        None \<Rightarrow> Inl TypeError
      | Some row \<Rightarrow>
          (case cardCount (variant s) i of
             Inl e \<Rightarrow> Inl e
           | Inr cnt \<Rightarrow>
               Inr (case (js_index row (rank i - 1), cnt) of
                      (Some d, Some c) \<Rightarrow> d = c - 1
                    | _ \<Rightarrow> False)))"

text \<open>
  \<open>isBasicTrash\<close>: a comparison with \<open>undefined\<close> is false, and \<open>||\<close> does not
  evaluate its right side when the left one holds.
\<close>

definition isBasicTrash :: "state \<Rightarrow> identity \<Rightarrow> bool" where
  "isBasicTrash s i =
     ((case js_index (play_stacks s) (suitIndex i) of Some p \<Rightarrow> rank i \<le> p | None \<Rightarrow> False)
      \<or> (case js_index (max_ranks s) (suitIndex i) of Some m \<Rightarrow> rank i > m | None \<Rightarrow> False))"

definition playableAway :: "state \<Rightarrow> identity \<Rightarrow> jsnum" where
  "playableAway s i =
     js_sub (Num (rank i)) (js_add (to_num (js_index (play_stacks s) (suitIndex i))) (Num 1))"

section \<open>Cloning a game for a hypothesis\<close>

text \<open>
  \<open>PlayfulSieve\<close> extends \<open>State\<close> with the field \<open>locked_shifts\<close>. Game objects
  are kept in a store, a list indexed by address; \<open>new\<close> appends to it.
\<close>

record playful_sieve = state +
  locked_shifts :: int

type_synonym store = "playful_sieve list"

text \<open>
  The constructor of \<open>State\<close> is not among the sources: what it builds from its five
  arguments is the parameter \<open>ctor\<close>. The class field \<open>locked_shifts = 0\<close> is set
  after it.
\<close>

type_synonym state_ctor = "int \<Rightarrow> string list \<Rightarrow> int \<Rightarrow> variant \<Rightarrow> bool \<Rightarrow> state"

definition PlayfulSieve_new :: "state_ctor \<Rightarrow> playful_sieve \<Rightarrow> playful_sieve" where
  "PlayfulSieve_new ctor this =
     state.extend
       (ctor (tableID this) (playerNames this) (ourPlayerIndex this) (variant this) (in_progress this))
       (playful_sieve.fields 0)"

text \<open>
  Modelled from the spec: \<open>Utils.objClone\<close> (tools/util.js is not among the sources), "a
  value-independent deep copy". Data are values here, so the copy of a value is the value.
\<close>

definition objClone :: "'a \<Rightarrow> 'a" where
  "objClone x = x"

text \<open>
  The loop over \<open>minimalProps\<close>: each property of \<open>this\<close> is cloned into the new
  object, and the cloned hands get the new object (at \<open>newAddr\<close>) as their \<open>state\<close>.
\<close>

definition copy_minimalProps :: "playful_sieve \<Rightarrow> addr \<Rightarrow> playful_sieve \<Rightarrow> playful_sieve" where
  "copy_minimalProps this newAddr newState =
     newState\<lparr>play_stacks := objClone (play_stacks this),
              hypo_stacks := objClone (hypo_stacks this),
              discard_stacks := objClone (discard_stacks this),
              max_ranks := objClone (max_ranks this),
              hands := map (\<lambda>h. h\<lparr>hand_state := newAddr\<rparr>) (objClone (hands this)),
              turn_count := objClone (turn_count this),
              clue_tokens := objClone (clue_tokens this),
              strikes := objClone (strikes this),
              early_game := objClone (early_game this),
              rewindDepth := objClone (rewindDepth this),
              cardsLeft := objClone (cardsLeft this),
              locked_shifts := objClone (locked_shifts this)\<rparr>"

text \<open>
  \<open>minimalCopy\<close> on the object at address \<open>this\<close>: the new object is constructed
  first, then the depth is checked (\<open>throw\<close> is \<open>Inl DepthError\<close>), then the
  properties are copied and the depth counter is set. The result is the store afterwards
  and the address returned.
\<close>

definition minimalCopy :: "state_ctor \<Rightarrow> store \<Rightarrow> addr \<Rightarrow> store \<times> (error + addr)" where
  "minimalCopy ctor st this =
     (case js_index st this of
        None \<Rightarrow> (st, Inl TypeError)
      | Some t \<Rightarrow>
          (let newAddr = int (length st);
               newState = PlayfulSieve_new ctor t
           in if copyDepth t > 3 then (st @ [newState], Inl DepthError)
              else (st @ [(copy_minimalProps t newAddr newState)\<lparr>copyDepth := copyDepth t + 1\<rparr>],
                    Inr newAddr)))"

section \<open>Focus possibilities of a clue\<close>

datatype conn_type = Known | Playable | Prompt | Finesse | Terminate

record connection =
  conn_type :: conn_type
  reacting :: int
  conn_card :: card
  hidden :: bool

text \<open>
  A \<open>FocusPossibility\<close>. Its rank is computed from a play stack, so it is a number or
  \<open>NaN\<close>, and two ranks are compared with \<open>js_eq\<close>.
\<close>

record focus_possibility =
  fp_suitIndex :: int
  fp_rank :: jsnum
  fp_save :: bool
  fp_connections :: "connection list"

record clue_action =
  giver :: int
  target :: int
  clue_list :: "int list"
  clue :: base_clue

text \<open>
  What focus-possible.js imports and is not among the sources: \<open>determine_focus\<close>
  (focused card and whether it is on chop), \<open>find_connecting\<close>, the
  \<open>hanabi-util\<close> functions in the form it calls them (suit index and rank as
  separate arguments) and \<open>Utils.objEquals\<close>. They are parameters, taken as pure
  functions.
\<close>

record focus_env =
  determine_focus :: "hand option \<Rightarrow> int list \<Rightarrow> card \<times> bool"
  find_connecting :: "state \<Rightarrow> int \<Rightarrow> int \<Rightarrow> int \<Rightarrow> int \<Rightarrow> int list \<Rightarrow> connection option"
  isCritical3 :: "state \<Rightarrow> int \<Rightarrow> int \<Rightarrow> bool"
  playableAway3 :: "state \<Rightarrow> int \<Rightarrow> int \<Rightarrow> jsnum"
  visibleFind4 :: "state \<Rightarrow> int \<Rightarrow> int \<Rightarrow> int \<Rightarrow> card list"
  objEquals :: "base_clue \<Rightarrow> base_clue option \<Rightarrow> bool"

text \<open>
  Modelled from the spec: \<open>matches\<close> of a plain identity (Card.js is not among the
  sources): an Identity is the pair of its suit index and rank, and two of them match when
  both agree.
\<close>

definition identity_matches :: "identity \<Rightarrow> int \<Rightarrow> int \<Rightarrow> bool" where
  "identity_matches c s r = (suitIndex c = s \<and> rank c = r)"

text \<open>
  The loops mutate a clone of the state: \<open>card.finessed = true\<close> on a connecting card
  and \<open>play_stacks[suitIndex]++\<close>. A card object is identified by its order, so the
  assignment marks the card of that order in the hands of the clone and in every
  connection of the list being built that refers to it.
\<close>

definition mark_finessed :: "int list \<Rightarrow> card \<Rightarrow> card" where
  "mark_finessed marks c = (if order c \<in> set marks then c\<lparr>finessed := True\<rparr> else c)"

definition mark_hands :: "int list \<Rightarrow> state \<Rightarrow> state" where
  "mark_hands marks s =
     s\<lparr>hands := map (\<lambda>h. h\<lparr>hand_cards := map (mark_finessed marks) (hand_cards h)\<rparr>) (hands s)\<rparr>"

definition mark_connections :: "int list \<Rightarrow> connection list \<Rightarrow> connection list" where
  "mark_connections marks conns =
     map (\<lambda>c. c\<lparr>conn_card := mark_finessed marks (conn_card c)\<rparr>) conns"

definition increment_stack :: "int \<Rightarrow> state \<Rightarrow> state" where
  "increment_stack i s = s\<lparr>play_stacks := (play_stacks s)[nat i := play_stacks s ! nat i + 1]\<rparr>"

text \<open>
  The variables of the \<open>while\<close> loop of \<open>find_colour_focus\<close>: the clone with its
  play stacks (finesse marks kept apart in \<open>cl_marks\<close>), the rank looked for, the
  connections so far, the orders already connected, the possibilities pushed.
\<close>

record colour_loop =
  cl_hypo :: state
  cl_marks :: "int list"
  cl_rank :: int
  cl_connections :: "connection list"
  cl_already :: "int list"
  cl_possible :: "focus_possibility list"

function colour_while :: "focus_env \<Rightarrow> clue_action \<Rightarrow> int \<Rightarrow> card \<Rightarrow> colour_loop \<Rightarrow> colour_loop" where
  "colour_while env action suitIdx focused_card l =
     (case find_connecting env (mark_hands (cl_marks l) (cl_hypo l)) (giver action) (target action)
             suitIdx (cl_rank l) (cl_already l) of
        None \<Rightarrow> l
      | Some connecting \<Rightarrow>
          if \<not> cl_rank l < 5 then l
          else if conn_type connecting = Known \<and> newly_clued (conn_card connecting)
                  \<and> length (possible (conn_card connecting)) > 1
                  \<and> list_ex (\<lambda>c. identity_matches c suitIdx (cl_rank l)) (inferred focused_card)
          then l
          else
            (let finesse = (conn_type connecting = Finesse);
                 pushed = (if finesse
                           then cl_possible l @
                                [\<lparr>fp_suitIndex = suitIdx, fp_rank = Num (cl_rank l), fp_save = False,
                                  fp_connections = objClone (mark_connections (cl_marks l) (cl_connections l))\<rparr>]
                           else cl_possible l);
                 marks = (if finesse then cl_marks l @ [order (conn_card connecting)] else cl_marks l)
             in colour_while env action suitIdx focused_card
                  \<lparr>cl_hypo = increment_stack suitIdx (cl_hypo l), cl_marks = marks,
                   cl_rank = cl_rank l + 1,
                   cl_connections = cl_connections l @ [connecting],
                   cl_already = cl_already l @ [order (conn_card connecting)],
                   cl_possible = pushed\<rparr>))"
  by pat_completeness auto
termination
  by (relation "measure (\<lambda>(env, action, suitIdx, focused_card, l). nat (5 - cl_rank l))") auto

text \<open>
  The count of fill-ins for a black 2 or 5: the touched cards of the target's hand that
  are newly clued or were given the same clue before.
\<close>

definition fill_in :: "focus_env \<Rightarrow> card \<Rightarrow> bool" where
  "fill_in env c =
     (newly_clued c \<or>
      list_ex (\<lambda>(cl, index). int index \<noteq> int (length (clues c)) - 1
                 \<and> objEquals env cl (if clues c = [] then None else Some (last (clues c))))
        (zip (clues c) [0..<length (clues c)]))"

definition fill_ins :: "focus_env \<Rightarrow> hand \<Rightarrow> int list \<Rightarrow> nat" where
  "fill_ins env h touched =
     length (filter (\<lambda>c. order c \<in> set touched \<and> fill_in env c) (hand_cards h))"

text \<open>One round of the save loop of \<open>find_colour_focus\<close>, for one rank.\<close>

definition colour_save :: "focus_env \<Rightarrow> state \<Rightarrow> clue_action \<Rightarrow> int \<Rightarrow> int
    \<Rightarrow> focus_possibility list \<Rightarrow> error + focus_possibility list" where
  "colour_save env s action suitIdx r acc =
     (let critical = (if isCritical3 env s suitIdx r
                      then acc @ [\<lparr>fp_suitIndex = suitIdx, fp_rank = Num r, fp_save = True,
                                   fp_connections = []\<rparr>]
                      else acc)
      in if js_index (suits (variant s)) suitIdx = Some ''Black'' \<and> (r = 2 \<or> r = 5)
         then (case js_index (hands s) (target action) of
                 None \<Rightarrow> Inl TypeError
               | Some h \<Rightarrow> if fill_ins env h (clue_list action) < 2 then Inr acc else Inr critical)
         else Inr critical)"

fun colour_saves :: "focus_env \<Rightarrow> state \<Rightarrow> clue_action \<Rightarrow> int \<Rightarrow> int list
    \<Rightarrow> focus_possibility list \<Rightarrow> error + focus_possibility list" where
  "colour_saves env s action suitIdx [] acc = Inr acc"
| "colour_saves env s action suitIdx (r # rs) acc =
     (case colour_save env s action suitIdx r acc of
        Inl e \<Rightarrow> Inl e
      | Inr acc' \<Rightarrow> colour_saves env s action suitIdx rs acc')"

text \<open>
  \<open>find_colour_focus\<close>. When the play stack of the suit is \<open>undefined\<close> the next
  playable rank is \<open>NaN\<close>: the \<open>while\<close> loop and the save loop do not run and the
  single possibility pushed has rank \<open>NaN\<close>.
\<close>

definition find_colour_focus :: "focus_env \<Rightarrow> state \<Rightarrow> int \<Rightarrow> clue_action
    \<Rightarrow> error + focus_possibility list" where
  "find_colour_focus env s suitIdx action =
     (let (focused_card, chop) = determine_focus env (js_index (hands s) (target action)) (clue_list action)
      in case js_index (play_stacks s) suitIdx of
           None \<Rightarrow> Inr [\<lparr>fp_suitIndex = suitIdx, fp_rank = NaN, fp_save = False, fp_connections = []\<rparr>]
         | Some stack \<Rightarrow>
             (let l = colour_while env action suitIdx focused_card
                        \<lparr>cl_hypo = objClone s, cl_marks = [], cl_rank = stack + 1,
                         cl_connections = [], cl_already = [order focused_card], cl_possible = []\<rparr>;
                  plays = cl_possible l @
                          [\<lparr>fp_suitIndex = suitIdx, fp_rank = Num (cl_rank l), fp_save = False,
                            fp_connections = mark_connections (cl_marks l) (cl_connections l)\<rparr>]
              in if chop then colour_saves env s action suitIdx [cl_rank l + 1 .. 4] plays
                 else Inr plays))"

text \<open>
  The \<open>while\<close> loop of \<open>find_rank_focus\<close> for one suit. It is entered with the stack
  rank below the clued rank and steps by one, so its test \<open>stack_rank !== rank\<close> is
  \<open>stack_rank < rank\<close>.
\<close>

function rank_while :: "focus_env \<Rightarrow> clue_action \<Rightarrow> int \<Rightarrow> int \<Rightarrow> colour_loop \<Rightarrow> colour_loop" where
  "rank_while env action suitIdx r l =
     (if \<not> cl_rank l < r then l
      else case find_connecting env (mark_hands (cl_marks l) (cl_hypo l)) (giver action) (target action)
                  suitIdx (cl_rank l) (cl_already l) of
             None \<Rightarrow> l
           | Some connecting \<Rightarrow>
               rank_while env action suitIdx r
                 \<lparr>cl_hypo = increment_stack suitIdx (cl_hypo l),
                  cl_marks = (if conn_type connecting = Finesse
                              then cl_marks l @ [order (conn_card connecting)] else cl_marks l),
                  cl_rank = cl_rank l + 1,
                  cl_connections = cl_connections l @ [connecting],
                  cl_already = cl_already l @ [order (conn_card connecting)],
                  cl_possible = cl_possible l\<rparr>)"
  by pat_completeness auto
termination
  by (relation "measure (\<lambda>(env, action, suitIdx, r, l). nat (r - cl_rank l))") auto

text \<open>The play possibilities of \<open>find_rank_focus\<close> for one suit.\<close>

definition rank_plays :: "focus_env \<Rightarrow> state \<Rightarrow> int \<Rightarrow> clue_action \<Rightarrow> card \<Rightarrow> int
    \<Rightarrow> focus_possibility list" where
  "rank_plays env s r action focused_card suitIdx =
     (case js_index (play_stacks s) suitIdx of
        None \<Rightarrow> []
      | Some stack \<Rightarrow>
          if r = stack + 1
          then [\<lparr>fp_suitIndex = suitIdx, fp_rank = Num r, fp_save = False, fp_connections = []\<rparr>]
          else if r > stack + 1
          then (let l = rank_while env action suitIdx r
                          \<lparr>cl_hypo = objClone s, cl_marks = [], cl_rank = stack + 1,
                           cl_connections = [], cl_already = [order focused_card], cl_possible = []\<rparr>
                in if r = cl_rank l
                   then [\<lparr>fp_suitIndex = suitIdx, fp_rank = Num r, fp_save = False,
                          fp_connections = mark_connections (cl_marks l) (cl_connections l)\<rparr>]
                   else [])
          else [])"

text \<open>The save possibility of \<open>find_rank_focus\<close> for one suit, when the chop is touched.\<close>

definition rank_saves :: "focus_env \<Rightarrow> state \<Rightarrow> int \<Rightarrow> clue_action \<Rightarrow> card \<Rightarrow> int
    \<Rightarrow> focus_possibility list" where
  "rank_saves env s r action focused_card suitIdx =
     (if playableAway3 env s suitIdx r = Num 0 then []
      else if js_index (suits (variant s)) suitIdx = Some ''Black'' \<and> (r = 3 \<or> r = 4) then []
      else (let save2 = (r = 2 \<and>
                         length (filter (\<lambda>c. order c \<noteq> order focused_card)
                                   (visibleFind4 env s (giver action) suitIdx 2)) = 0)
            in if isCritical3 env s suitIdx r \<or> save2
               then [\<lparr>fp_suitIndex = suitIdx, fp_rank = Num r, fp_save = True, fp_connections = []\<rparr>]
               else []))"

definition find_rank_focus :: "focus_env \<Rightarrow> state \<Rightarrow> int \<Rightarrow> clue_action \<Rightarrow> focus_possibility list" where
  "find_rank_focus env s r action =
     (let (focused_card, chop) = determine_focus env (js_index (hands s) (target action)) (clue_list action)
      in concat (map (\<lambda>suitIdx. rank_plays env s r action focused_card suitIdx @
                                   (if chop then rank_saves env s r action focused_card suitIdx else []))
                   (map int [0..<length (suits (variant s))])))"

text \<open>\<open>Array.prototype.indexOf\<close>: the first index of the element, \<open>-1\<close> when absent.\<close>

fun indexOf :: "'a list \<Rightarrow> 'a \<Rightarrow> int" where
  "indexOf [] x = - 1"
| "indexOf (y # ys) x = (if y = x then 0 else (let i = indexOf ys x in if i < 0 then - 1 else i + 1))"

text \<open>\<open>focus_possible = focus_possible.concat(found)\<close>, where computing \<open>found\<close> may throw.\<close>

definition concat_focus :: "error + focus_possibility list \<Rightarrow> error + focus_possibility list
    \<Rightarrow> error + focus_possibility list" where
  "concat_focus acc found =
     (case acc of
        Inl e \<Rightarrow> Inl e
      | Inr xs \<Rightarrow> (case found of Inl e \<Rightarrow> Inl e | Inr ys \<Rightarrow> Inr (xs @ ys)))"

text \<open>\<open>find_focus_possible\<close> up to its last statement: the possibilities in generation order.\<close>

definition generated_focus_possible :: "focus_env \<Rightarrow> state \<Rightarrow> clue_action \<Rightarrow> error + focus_possibility list" where
  "generated_focus_possible env s action =
     (let names = suits (variant s);
          by_clue =
            (if clue_type (clue action) = COLOUR
             then concat_focus
                    (if ''Rainbow'' \<in> set names
                     then concat_focus (Inr []) (find_colour_focus env s (indexOf names ''Rainbow'') action)
                     else Inr [])
                    (find_colour_focus env s (clue_value (clue action)) action)
             else concat_focus (Inr []) (Inr (find_rank_focus env s (clue_value (clue action)) action)))
      in if ''Omni'' \<in> set names
         then concat_focus by_clue (find_colour_focus env s (indexOf names ''Omni'') action)
         else by_clue)"

text \<open>
  The last statement, \<open>focus_possible.filter((p1, index1) => !focus_possible.some((p2,
  index2) => ...))\<close>: an entry stays unless an entry at a greater index has the same
  suit index and rank.
\<close>

definition same_pair :: "focus_possibility \<Rightarrow> focus_possibility \<Rightarrow> bool" where
  "same_pair p1 p2 = (fp_suitIndex p1 = fp_suitIndex p2 \<and> js_eq (fp_rank p1) (fp_rank p2))"

definition remove_earlier_duplicates :: "focus_possibility list \<Rightarrow> focus_possibility list" where
  "remove_earlier_duplicates focus_possible =
     map snd
       (filter (\<lambda>(index1, p1).
                  \<not> list_ex (\<lambda>(index2, p2). same_pair p1 p2 \<and> index1 < index2)
                       (enumerate 0 focus_possible))
          (enumerate 0 focus_possible))"

definition find_focus_possible :: "focus_env \<Rightarrow> state \<Rightarrow> clue_action \<Rightarrow> error + focus_possibility list" where
  "find_focus_possible env s action =
     (case generated_focus_possible env s action of
        Inl e \<Rightarrow> Inl e
      | Inr focus_possible \<Rightarrow> Inr (remove_earlier_duplicates focus_possible))"

text \<open>
  The same filter with the indices counted from \<open>k\<close>: what is kept does not depend on
  where the count starts, which is what an induction over the list needs.
\<close>

definition kept_from :: "nat \<Rightarrow> focus_possibility list \<Rightarrow> focus_possibility list" where
  "kept_from k fps =
     map snd (filter (\<lambda>(index1, p1). \<not> list_ex (\<lambda>(index2, p2). same_pair p1 p2 \<and> index1 < index2) (enumerate k fps))
                (enumerate k fps))"

text \<open>The entries of a list of possibilities that have the pair (suit index, rank).\<close>

definition with_pair :: "int \<Rightarrow> int \<Rightarrow> focus_possibility list \<Rightarrow> focus_possibility list" where
  "with_pair si r fps = filter (\<lambda>q. fp_suitIndex q = si \<and> fp_rank q = Num r) fps"

section \<open>Utilities over the hands: visible cards, trash, card value\<close>

text \<open>
  \<open>Hand.findCards\<close> and \<open>Card.matches\<close> are not among the sources: they are
  parameters, taken as pure functions. \<open>findCards\<close> gets the identity and the two
  flags \<open>infer\<close> and \<open>symmetric\<close>, \<open>matches\<close> the identity and its options.
\<close>

record match_options =
  opt_assume :: bool
  opt_infer :: bool

record util_env =
  findCards :: "hand \<Rightarrow> identity \<Rightarrow> bool \<Rightarrow> bool \<Rightarrow> card list"
  card_matches :: "card \<Rightarrow> identity \<Rightarrow> match_options \<Rightarrow> bool"

text \<open>\<open>FindOptions\<close>; an option that is not given is \<open>None\<close> (\<open>false\<close> for the flag).\<close>

record find_options =
  fo_symmetric :: "int list option"
  fo_infer :: "int list option"
  fo_ignore :: "int list option"
  ignoreCM :: bool

definition no_options :: find_options where
  "no_options = \<lparr>fo_symmetric = None, fo_infer = None, fo_ignore = None, ignoreCM = False\<rparr>"

text \<open>One round of the loop of \<open>visibleFind\<close>, for player \<open>i\<close>.\<close>

definition visibleFind_player :: "util_env \<Rightarrow> state \<Rightarrow> int \<Rightarrow> identity \<Rightarrow> find_options \<Rightarrow> int
    \<Rightarrow> card list \<Rightarrow> error + card list" where
  "visibleFind_player env s inferringPlayerIndex i options p found =
     (if (case fo_ignore options of Some ig \<Rightarrow> p \<in> set ig | None \<Rightarrow> False) then Inr found
      else case js_index (hands s) p of
             None \<Rightarrow> Inl TypeError
           | Some h \<Rightarrow>
               Inr (found @ findCards env h i
                      (p \<in> set (case fo_infer options of Some xs \<Rightarrow> xs
                                 | None \<Rightarrow> [inferringPlayerIndex, ourPlayerIndex s]))
                      (p \<in> set (case fo_symmetric options of Some xs \<Rightarrow> xs
                                 | None \<Rightarrow> [inferringPlayerIndex]))))"

fun visibleFind_loop :: "util_env \<Rightarrow> state \<Rightarrow> int \<Rightarrow> identity \<Rightarrow> find_options \<Rightarrow> int list
    \<Rightarrow> card list \<Rightarrow> error + card list" where
  "visibleFind_loop env s inferringPlayerIndex i options [] found = Inr found"
| "visibleFind_loop env s inferringPlayerIndex i options (p # ps) found =
     (case visibleFind_player env s inferringPlayerIndex i options p found of
        Inl e \<Rightarrow> Inl e
      | Inr found' \<Rightarrow> visibleFind_loop env s inferringPlayerIndex i options ps found')"

definition visibleFind :: "util_env \<Rightarrow> state \<Rightarrow> int \<Rightarrow> identity \<Rightarrow> find_options \<Rightarrow> error + card list" where
  "visibleFind env s inferringPlayerIndex i options =
     visibleFind_loop env s inferringPlayerIndex i options [0 .. numPlayers s - 1] []"

definition isSaved :: "util_env \<Rightarrow> state \<Rightarrow> int \<Rightarrow> identity \<Rightarrow> int \<Rightarrow> find_options \<Rightarrow> error + bool" where
  "isSaved env s inferringPlayerIndex i ord options =
     (case visibleFind env s inferringPlayerIndex i options of
        Inl e \<Rightarrow> Inl e
      | Inr found \<Rightarrow>
          Inr (list_ex (\<lambda>c. order c \<noteq> ord
                           \<and> (finessed c \<or> clued c \<or> (if ignoreCM options then False else chop_moved c))
                           \<and> card_matches env c i \<lparr>opt_assume = True, opt_infer = False\<rparr>) found))"

definition isTrash :: "util_env \<Rightarrow> state \<Rightarrow> int \<Rightarrow> identity \<Rightarrow> int \<Rightarrow> find_options \<Rightarrow> error + bool" where
  "isTrash env s inferringPlayerIndex i ord options =
     (if isBasicTrash s i then Inr True else isSaved env s inferringPlayerIndex i ord options)"

text \<open>\<open>unique2\<close>: the conjuncts are evaluated from the left, each only if the ones before hold.\<close>

definition unique2 :: "util_env \<Rightarrow> state \<Rightarrow> identity \<Rightarrow> error + bool" where
  "unique2 env s i =
     (if \<not> rank i = 2 then Inr False
      else if \<not> (case js_index (play_stacks s) (suitIndex i) of Some p \<Rightarrow> p < 2 | None \<Rightarrow> False)
      then Inr False
      else case visibleFind env s (ourPlayerIndex s) i no_options of
             Inl e \<Rightarrow> Inl e
           | Inr found \<Rightarrow>
               if \<not> length found = 1 then Inr False
               else (case js_index (hands s) (ourPlayerIndex s) of
                       None \<Rightarrow> Inl TypeError
                     | Some h \<Rightarrow>
                         Inr (\<not> list_ex (\<lambda>c. card_matches env c i \<lparr>opt_assume = False, opt_infer = True\<rparr>)
                                   (hand_cards h))))"

text \<open>
  The argument of \<open>cardValue\<close> is any \<open>BasicCard\<close>: a plain identity, or a card belief
  (the case \<open>card instanceof Card\<close>).
\<close>

datatype basic_card = Plain identity | Belief card

definition identity_of :: "card \<Rightarrow> identity" where
  "identity_of c = \<lparr>suitIndex = suitIndex c, rank = rank c\<rparr>"

text \<open>
  The value \<open>cardValue\<close> returns: a number, or for an unknown card the quotient
  \<open>sum / possible.length\<close> of two numbers, kept as the pair it is computed from.
\<close>

datatype card_value = Exact jsnum | Mean jsnum nat

text \<open>\<open>cardValue\<close> from its second \<open>if\<close> on: the value of a card whose identity is read
  from its own suit index and rank.\<close>

definition known_value :: "util_env \<Rightarrow> state \<Rightarrow> identity \<Rightarrow> int \<Rightarrow> error + jsnum" where
  "known_value env s i ord =
     (case isTrash env s (ourPlayerIndex s) i ord no_options of
        Inl e \<Rightarrow> Inl e
      | Inr trash \<Rightarrow>
          (case (if trash then Inr True
                 else case visibleFind env s (ourPlayerIndex s) i no_options of
                        Inl e \<Rightarrow> Inl e
                      | Inr found \<Rightarrow> Inr (length found > 1)) of
             Inl e \<Rightarrow> Inl e
           | Inr True \<Rightarrow> Inr (Num 0)
           | Inr False \<Rightarrow>
               (case isCritical s i of
                  Inl e \<Rightarrow> Inl e
                | Inr True \<Rightarrow> Inr (Num 5)
                | Inr False \<Rightarrow>
                    (case unique2 env s i of
                       Inl e \<Rightarrow> Inl e
                     | Inr True \<Rightarrow> Inr (Num 4)
                     | Inr False \<Rightarrow>
                         (case js_index (hypo_stacks s) (ourPlayerIndex s) of
                            None \<Rightarrow> Inl TypeError
                          | Some stacks \<Rightarrow>
                              Inr (js_sub (Num 5)
                                     (js_sub (Num (rank i)) (to_num (js_index stacks (suitIndex i))))))))))"

text \<open>\<open>possible.reduce((sum, curr) => sum += cardValue(state, curr), 0)\<close>, given the
  results of the calls in order: the first call that throws ends the sum.\<close>

fun sum_values :: "(error + jsnum) list \<Rightarrow> jsnum \<Rightarrow> error + jsnum" where
  "sum_values [] acc = Inr acc"
| "sum_values (Inl e # vs) acc = Inl e"
| "sum_values (Inr v # vs) acc = sum_values vs (js_add acc v)"

text \<open>
  \<open>cardValue\<close>. The elements of \<open>possible\<close> are identities, not cards, so the call
  \<open>cardValue(state, curr)\<close> inside the sum fails the test \<open>instanceof Card\<close> and
  is \<open>known_value\<close> with the default order \<open>-1\<close>.
\<close>

fun cardValue :: "util_env \<Rightarrow> state \<Rightarrow> basic_card \<Rightarrow> int \<Rightarrow> error + card_value" where
  "cardValue env s (Plain i) ord = map_sum id Exact (known_value env s i ord)"
| "cardValue env s (Belief c) ord =
     (if suitIndex c = - 1
      then (case sum_values (map (\<lambda>curr. known_value env s curr (- 1)) (possible c)) (Num 0) of
              Inl e \<Rightarrow> Inl e
            | Inr summed \<Rightarrow> Inr (Mean summed (length (possible c))))
      else map_sum id Exact (known_value env s (identity_of c) ord))"

section \<open>A player's beliefs and the hypothetical stacks\<close>

record link =
  cards :: "actual_card list"
  identities :: "identity list"
  promised :: bool

record waiting_connection =
  connections :: "connection list"
  wc_giver :: int
  wc_target :: int
  conn_index :: int
  focused_card :: actual_card
  inference :: identity
  action_index :: int
  fake :: bool

text \<open>
  The fields of \<open>Player\<close> that \<open>update_hypo_stacks\<close> reads or writes. \<open>thoughts\<close> is
  indexed by card order; \<open>unknown_plays\<close> is a \<open>Set\<close> of orders.
\<close>

record player =
  playerIndex :: int
  thoughts :: "card list"
  links :: "link list"
  hypo_stacks :: "int list"
  unknown_plays :: "int set"
  waiting_connections :: "waiting_connection list"

text \<open>
  The methods of the card classes and the \<open>unknownIdentities\<close> that Player.js calls
  with the player itself (hanabi-util has it with a player index) are not among the
  sources: they are parameters, taken as pure functions.
\<close>

record player_env = util_env +
  matches_inferences :: "card \<Rightarrow> bool"
  card_identity :: "card \<Rightarrow> match_options \<Rightarrow> identity option"
  actual_identity :: "actual_card \<Rightarrow> identity option"
  actual_matches :: "actual_card \<Rightarrow> identity \<Rightarrow> match_options \<Rightarrow> bool"
  unknownIdentitiesOf :: "state \<Rightarrow> player \<Rightarrow> identity \<Rightarrow> int"

definition plain_match :: match_options where
  "plain_match = \<lparr>opt_assume = False, opt_infer = False\<rparr>"

text \<open>
  Modelled from the spec: the getter \<open>saved\<close> of a card (Card.js is not among the
  sources): a card is saved when it is "clued, finessed, or chop-moved".
\<close>

definition saved :: "card \<Rightarrow> bool" where
  "saved c = (clued c \<or> finessed c \<or> chop_moved c)"

text \<open>
  Modelled from the spec: \<open>IdentitySet.subtract\<close> (IdentitySet.js is not among the
  sources), the identities of the set that are not among those taken away.
\<close>

definition subtract :: "identity list \<Rightarrow> identity list \<Rightarrow> identity list" where
  "subtract ids gone = filter (\<lambda>i. \<not> list_ex (\<lambda>g. identity_matches i (suitIndex g) (rank g)) gone) ids"

text \<open>\<open>state.hands.flat()\<close>, and the card as the \<open>ActualCard\<close> it is.\<close>

definition hands_flat :: "state \<Rightarrow> card list" where
  "hands_flat s = concat (map hand_cards (hands s))"

definition as_actual :: "card \<Rightarrow> actual_card" where
  "as_actual c =
     \<lparr>suitIndex = suitIndex c, rank = rank c, order = order c, clued = clued c,
      newly_clued = newly_clued c, clues = clues c\<rparr>"

definition linkedOrders :: "player_env \<Rightarrow> state \<Rightarrow> player \<Rightarrow> int list" where
  "linkedOrders env s p =
     concat (map (\<lambda>l. map order (cards l))
               (filter (\<lambda>l. int (length (cards l))
                              > foldl (\<lambda>sum i. sum + unknownIdentitiesOf env s p i) 0 (identities l))
                  (links p)))"

text \<open>Running a step on the value of the step before, unless that one threw.\<close>

definition on_value :: "error + 'a \<Rightarrow> ('a \<Rightarrow> error + 'b) \<Rightarrow> error + 'b" where
  "on_value r f = (case r of Inl e \<Rightarrow> Inl e | Inr v \<Rightarrow> f v)"

text \<open>\<open>xs.some(f)\<close> and \<open>xs.filter(f)\<close> for a test that may throw.\<close>

fun some_of :: "('a \<Rightarrow> error + bool) \<Rightarrow> 'a list \<Rightarrow> error + bool" where
  "some_of f [] = Inr False"
| "some_of f (x # xs) =
     (case f x of Inl e \<Rightarrow> Inl e | Inr True \<Rightarrow> Inr True | Inr False \<Rightarrow> some_of f xs)"

fun filter_of :: "('a \<Rightarrow> error + bool) \<Rightarrow> 'a list \<Rightarrow> error + 'a list" where
  "filter_of f [] = Inr []"
| "filter_of f (x # xs) =
     (case f x of
        Inl e \<Rightarrow> Inl e
      | Inr keep \<Rightarrow> (case filter_of f xs of
                       Inl e \<Rightarrow> Inl e
                     | Inr ys \<Rightarrow> Inr (if keep then x # ys else ys)))"

text \<open>\<open>state.deck[order].matches(inference, { assume: true })\<close>.\<close>

definition deck_matches :: "player_env \<Rightarrow> state \<Rightarrow> int \<Rightarrow> identity \<Rightarrow> error + bool" where
  "deck_matches env s ord i =
     (case js_index (deck s) ord of
        None \<Rightarrow> Inl TypeError
      | Some a \<Rightarrow> Inr (actual_matches env a i \<lparr>opt_assume = True, opt_infer = False\<rparr>))"

text \<open>The waiting connections on this card that will be proven wrong.\<close>

definition fake_wcs :: "player_env \<Rightarrow> state \<Rightarrow> player \<Rightarrow> int \<Rightarrow> error + waiting_connection list" where
  "fake_wcs env s p ord =
     filter_of (\<lambda>wc. if order (focused_card wc) = ord
                      then (if fake wc then Inr True
                            else on_value (deck_matches env s (order (focused_card wc)) (inference wc))
                                   (\<lambda>m. Inr (\<not> m)))
                      else Inr False)
       (waiting_connections p)"

text \<open>
  \<open>wc.connections.some((conn, index) => index >= wc.conn_index && conn.card.order ===
  order)\<close>: the card is in the part of the chain still waiting.
\<close>

definition wc_uses :: "waiting_connection \<Rightarrow> int \<Rightarrow> bool" where
  "wc_uses wc ord =
     list_ex (\<lambda>(index, conn). int index \<ge> conn_index wc \<and> order (conn_card conn) = ord)
       (enumerate 0 (connections wc))"

text \<open>
  The local function \<open>delayed_playable\<close>, for the elimination list and the stacks of
  the moment. The possibilities are identities, or the card itself; \<open>matches\<close> is the
  method of what they are.
\<close>

definition delayed_playable :: "('a identity_scheme \<Rightarrow> identity \<Rightarrow> bool) \<Rightarrow> identity list \<Rightarrow> int list
    \<Rightarrow> 'a identity_scheme list \<Rightarrow> bool" where
  "delayed_playable matches good_touch_elim stacks poss =
     (let remaining_poss = filter (\<lambda>c. \<not> list_ex (\<lambda>e. matches c e) good_touch_elim) poss
      in length remaining_poss > 0
         \<and> list_all (\<lambda>c. js_eq (js_add (to_num (js_index stacks (suitIndex c))) (Num 1)) (Num (rank c)))
              remaining_poss)"

definition identity_eq :: "identity \<Rightarrow> identity \<Rightarrow> bool" where
  "identity_eq c e = identity_matches c (suitIndex e) (rank e)"

text \<open>
  The variables of the loops: the stacks, the unknown plays, the identities already
  counted, the flag of the \<open>while\<close> loop, and the identities \<open>logger.warn\<close> was called
  for.
\<close>

record hypo_loop =
  l_hypo_stacks :: "int list"
  l_unknown_plays :: "int set"
  l_good_touch_elim :: "identity list"
  found_new_playable :: bool
  warned :: "identity list"

text \<open>
  The test under "Do not allow false updating of hypo stacks": true when the card is
  to be skipped.
\<close>

definition false_update :: "player_env \<Rightarrow> state \<Rightarrow> player \<Rightarrow> hypo_loop \<Rightarrow> int \<Rightarrow> identity option
    \<Rightarrow> identity option \<Rightarrow> error + bool" where
  "false_update env s p l ord ident actual_id =
     (if playerIndex p \<noteq> - 1 then Inr False
      else if (case (ident, actual_id) of (Some i, Some a) \<Rightarrow> \<not> identity_eq i a | _ \<Rightarrow> False)
      then Inr True
      else if (case actual_id of
                 Some a \<Rightarrow> list_ex (\<lambda>c. order c \<in> l_unknown_plays l
                                        \<and> actual_matches env (as_actual c) a plain_match) (hands_flat s)
               | None \<Rightarrow> False)
      then Inr True
      else on_value
             (some_of (\<lambda>wc. on_value (deck_matches env s (order (focused_card wc)) (inference wc))
                               (\<lambda>m. Inr (\<not> m \<and> wc_uses wc ord)))
                (waiting_connections p))
             (\<lambda>only_fake.
                if \<not> only_fake then Inr False
                else on_value
                       (some_of (\<lambda>wc. on_value (deck_matches env s (order (focused_card wc)) (inference wc))
                                         (\<lambda>m. Inr (m \<and> wc_uses wc ord)))
                          (waiting_connections p))
                       (\<lambda>real. Inr (\<not> real))))"

text \<open>
  Putting an identity on the stacks: refused with a warning unless its rank is the
  stack of its suit plus one (never so when the stack is \<open>undefined\<close>).
\<close>

definition advance :: "identity \<Rightarrow> hypo_loop \<Rightarrow> hypo_loop" where
  "advance i l =
     (if \<not> js_eq (Num (rank i)) (js_add (to_num (js_index (l_hypo_stacks l) (suitIndex i))) (Num 1))
      then l\<lparr>warned := warned l @ [i]\<rparr>
      else l\<lparr>l_hypo_stacks := (l_hypo_stacks l)[nat (suitIndex i) := rank i],
             l_good_touch_elim := l_good_touch_elim l @ [i],
             found_new_playable := True\<rparr>)"

text \<open>A playable card whose identity the player does not know.\<close>

definition unknown_play :: "player \<Rightarrow> int \<Rightarrow> hypo_loop \<Rightarrow> error + hypo_loop" where
  "unknown_play p ord l =
     (let l1 = l\<lparr>l_unknown_plays := insert ord (l_unknown_plays l)\<rparr>
      in case find (\<lambda>lk. promised lk \<and> list_ex (\<lambda>c. order c = ord) (cards lk)) (links p) of
           None \<Rightarrow> Inr l1
         | Some promised_link \<Rightarrow>
             if list_all (\<lambda>c. order c \<in> l_unknown_plays l1) (cards promised_link)
             then (case identities promised_link of
                     [] \<Rightarrow> Inl TypeError
                   | i # _ \<Rightarrow> Inr (advance i l1))
             else Inr l1)"

text \<open>The body of the \<open>for\<close> loop, for the card of one order.\<close>

definition scan_card :: "player_env \<Rightarrow> state \<Rightarrow> player \<Rightarrow> int list \<Rightarrow> int \<Rightarrow> hypo_loop \<Rightarrow> error + hypo_loop" where
  "scan_card env s p linked_orders ord l =
     (case js_index (thoughts p) ord of
        None \<Rightarrow> Inl TypeError
      | Some c \<Rightarrow>
          if \<not> saved c \<or> list_ex (\<lambda>e. card_matches env c e plain_match) (l_good_touch_elim l)
             \<or> ord \<in> set linked_orders
          then Inr l
          else on_value (fake_wcs env s p ord)
            (\<lambda>fakes.
               let diff = c\<lparr>inferred := subtract (inferred c) (map inference fakes)\<rparr>
               in if matches_inferences env diff
                     \<and> (delayed_playable identity_eq (l_good_touch_elim l) (l_hypo_stacks l) (possible diff)
                        \<or> delayed_playable identity_eq (l_good_touch_elim l) (l_hypo_stacks l) (inferred diff)
                        \<or> (finessed diff
                            \<and> delayed_playable (\<lambda>x e. card_matches env x e plain_match)
                                 (l_good_touch_elim l) (l_hypo_stacks l) [c]))
                  then (let ident = card_identity env c \<lparr>opt_assume = False, opt_infer = True\<rparr>
                        in case js_index (deck s) ord of
                             None \<Rightarrow> Inl TypeError
                           | Some a \<Rightarrow>
                               on_value (false_update env s p l ord ident (actual_identity env a))
                                 (\<lambda>skip. if skip then Inr l
                                          else case ident of
                                                 None \<Rightarrow> unknown_play p ord l
                                               | Some i \<Rightarrow> Inr (advance i l)))
                  else Inr l))"

fun scan_hands :: "player_env \<Rightarrow> state \<Rightarrow> player \<Rightarrow> int list \<Rightarrow> int list \<Rightarrow> hypo_loop \<Rightarrow> error + hypo_loop" where
  "scan_hands env s p linked_orders [] l = Inr l"
| "scan_hands env s p linked_orders (ord # ords) l =
     (case scan_card env s p linked_orders ord l of
        Inl e \<Rightarrow> Inl e
      | Inr l' \<Rightarrow> scan_hands env s p linked_orders ords l')"

text \<open>
  The identities a scan can put on the stacks: the identity each card in a hand has
  for the player, and the first identity of each link. An identity is pending while its
  rank is above the stack of its suit.
\<close>

definition candidates :: "player_env \<Rightarrow> state \<Rightarrow> player \<Rightarrow> identity list" where
  "candidates env s p =
     concat (map (\<lambda>c. case js_index (thoughts p) (order c) of
                         None \<Rightarrow> []
                       | Some t \<Rightarrow> (case card_identity env t \<lparr>opt_assume = False, opt_infer = True\<rparr> of
                                     None \<Rightarrow> [] | Some i \<Rightarrow> [i]))
               (hands_flat s))
     @ concat (map (\<lambda>lk. take 1 (identities lk)) (links p))"

definition pending :: "int list \<Rightarrow> identity list \<Rightarrow> identity list" where
  "pending stacks ids =
     filter (\<lambda>i. case js_index stacks (suitIndex i) of Some h \<Rightarrow> h < rank i | None \<Rightarrow> False) ids"

text \<open>
  What one step does to the stacks: it keeps them, or it advances them by an identity
  \<open>i\<close>, whose suit had its stack at \<open>rank i - 1\<close> and now has it at \<open>rank i\<close>.
\<close>

definition advanced_by :: "identity \<Rightarrow> hypo_loop \<Rightarrow> hypo_loop \<Rightarrow> bool" where
  "advanced_by i l l' =
     (js_index (l_hypo_stacks l) (suitIndex i) = Some (rank i - 1)
      \<and> l_hypo_stacks l' = (l_hypo_stacks l)[nat (suitIndex i) := rank i]
      \<and> l_good_touch_elim l' = l_good_touch_elim l @ [i]
      \<and> found_new_playable l')"

definition stacks_kept :: "hypo_loop \<Rightarrow> hypo_loop \<Rightarrow> bool" where
  "stacks_kept l l' =
     (l_hypo_stacks l' = l_hypo_stacks l \<and> l_good_touch_elim l' = l_good_touch_elim l
      \<and> found_new_playable l' = found_new_playable l)"

lemma js_eq_next_rank:
  "js_eq (Num r) (js_add (to_num (js_index stacks si)) (Num 1)) = (js_index stacks si = Some (r - 1))"
  by (cases "js_index stacks si") auto

lemma advance_cases:
  "(stacks_kept l (advance i l) \<and> warned (advance i l) = warned l @ [i])
   \<or> (advanced_by i l (advance i l) \<and> warned (advance i l) = warned l)"
  unfolding advance_def js_eq_next_rank by (simp add: stacks_kept_def advanced_by_def)

lemma advance_unknown_plays: "l_unknown_plays (advance i l) = l_unknown_plays l"
  by (simp add: advance_def)

lemma find_promised_link:
  "find P (links p) = Some lk \<Longrightarrow> lk \<in> set (links p)"
  by (auto simp: find_Some_iff)

lemma unknown_play_cases:
  assumes "unknown_play p ord l = Inr l'"
  shows "l_unknown_plays l' = insert ord (l_unknown_plays l)
         \<and> (stacks_kept l l' \<or> (\<exists>lk \<in> set (links p). \<exists>i rest. identities lk = i # rest \<and> advanced_by i l l'))"
proof -
  let ?l1 = "l\<lparr>l_unknown_plays := insert ord (l_unknown_plays l)\<rparr>"
  have k1: "stacks_kept l ?l1" by (simp add: stacks_kept_def)
  have adv: "stacks_kept l (advance i ?l1) \<or> advanced_by i l (advance i ?l1)" for i
    using advance_cases [of ?l1 i] by (auto simp: stacks_kept_def advanced_by_def)
  show ?thesis
  proof (cases "find (\<lambda>lk. promised lk \<and> list_ex (\<lambda>c. order c = ord) (cards lk)) (links p)")
    case None
    with assms k1 show ?thesis by (auto simp: unknown_play_def)
  next
    case (Some lk)
    then have lk: "lk \<in> set (links p)" by (rule find_promised_link)
    show ?thesis
    proof (cases "list_all (\<lambda>c. order c \<in> l_unknown_plays ?l1) (cards lk)")
      case False
      with assms Some k1 show ?thesis by (auto simp: unknown_play_def Let_def)
    next
      case True
      show ?thesis
      proof (cases "identities lk")
        case Nil
        with assms Some True show ?thesis by (simp add: unknown_play_def Let_def)
      next
        case (Cons i rest)
        with assms Some True have l': "l' = advance i ?l1" by (simp add: unknown_play_def Let_def)
        with adv [of i] lk Cons show ?thesis
          by (auto simp: advance_unknown_plays)
      qed
    qed
  qed
qed


lemma scan_card_cases:
  assumes "scan_card env s p linked ord l = Inr l'"
  shows "(l_unknown_plays l' = l_unknown_plays l \<or> l_unknown_plays l' = insert ord (l_unknown_plays l))
       \<and> (stacks_kept l l'
          \<or> (\<exists>i. advanced_by i l l'
                 \<and> ((\<exists>c. js_index (thoughts p) ord = Some c
                          \<and> card_identity env c \<lparr>opt_assume = False, opt_infer = True\<rparr> = Some i)
                    \<or> (\<exists>lk \<in> set (links p). \<exists>rest. identities lk = i # rest))))"
proof -
  have same: "l_unknown_plays l = l_unknown_plays l \<and> stacks_kept l l"
    by (simp add: stacks_kept_def)
  from assms obtain c where c: "js_index (thoughts p) ord = Some c"
    by (cases "js_index (thoughts p) ord") (auto simp: scan_card_def)
  show ?thesis
  proof (cases "l' = l")
    case True
    with same show ?thesis by simp
  next
    case False
    with assms c obtain a skip where
      a: "js_index (deck s) ord = Some a" and
      r: "(case card_identity env c \<lparr>opt_assume = False, opt_infer = True\<rparr> of
             None \<Rightarrow> unknown_play p ord l | Some i \<Rightarrow> Inr (advance i l)) = Inr l'"
      by (auto simp: scan_card_def on_value_def Let_def split: if_splits sum.splits option.splits)
    show ?thesis
    proof (cases "card_identity env c \<lparr>opt_assume = False, opt_infer = True\<rparr>")
      case None
      with r have "unknown_play p ord l = Inr l'" by simp
      from unknown_play_cases [OF this] show ?thesis by blast
    next
      case (Some i)
      with r have "l' = advance i l" by simp
      with advance_cases [of l i] c Some show ?thesis
        by (auto simp: advance_unknown_plays)
    qed
  qed
qed

lemma candidates_card:
  assumes "ord \<in> order ` set (hands_flat s)" and "js_index (thoughts p) ord = Some c"
    and "card_identity env c \<lparr>opt_assume = False, opt_infer = True\<rparr> = Some i"
  shows "i \<in> set (candidates env s p)"
  using assms by (force simp: candidates_def)

lemma candidates_link:
  assumes "lk \<in> set (links p)" and "identities lk = i # rest"
  shows "i \<in> set (candidates env s p)"
  using assms by (force simp: candidates_def)

lemma scan_card_step:
  assumes "scan_card env s p linked ord l = Inr l'" and "ord \<in> order ` set (hands_flat s)"
  shows "stacks_kept l l' \<or> (\<exists>i \<in> set (candidates env s p). advanced_by i l l')"
  using scan_card_cases [OF assms(1)] assms(2) candidates_card candidates_link
  by blast


lemma js_index_update:
  "js_index stacks si = Some h \<Longrightarrow>
   js_index (stacks[nat si := r]) sj = (if sj = si then Some r else js_index stacks sj)"
  by (auto simp: js_index_def nth_list_update split: if_splits)

lemma pending_advanced:
  assumes "advanced_by i l l'" and "i \<in> set ids"
  shows "length (pending (l_hypo_stacks l') ids) < length (pending (l_hypo_stacks l) ids)"
proof -
  let ?P = "\<lambda>x. case js_index (l_hypo_stacks l) (suitIndex x) of Some h \<Rightarrow> h < rank x | None \<Rightarrow> False"
  let ?P' = "\<lambda>x. case js_index (l_hypo_stacks l') (suitIndex x) of Some h \<Rightarrow> h < rank x | None \<Rightarrow> False"
  from assms(1) have old: "js_index (l_hypo_stacks l) (suitIndex i) = Some (rank i - 1)"
    and new: "l_hypo_stacks l' = (l_hypo_stacks l)[nat (suitIndex i) := rank i]"
    by (simp_all add: advanced_by_def)
  have look: "js_index (l_hypo_stacks l') sj
              = (if sj = suitIndex i then Some (rank i) else js_index (l_hypo_stacks l) sj)" for sj
    unfolding new by (rule js_index_update [OF old])
  have imp: "?P' x \<Longrightarrow> ?P x" for x
    by (cases "suitIndex x = suitIndex i") (auto simp: look old split: option.splits)
  have split: "filter ?P' ids = filter ?P' (filter ?P ids)"
    using imp by (auto intro: filter_cong)
  have mem: "i \<in> set (filter ?P ids)" and out: "\<not> ?P' i"
    using assms(2) by (simp_all add: old look)
  have "length (filter ?P' (filter ?P ids)) < length (filter ?P ids)"
    using mem out by (rule length_filter_less)
  then have "length (filter ?P' ids) < length (filter ?P ids)"
    by (simp only: split [symmetric])
  then show ?thesis
    by (simp add: pending_def)
qed

lemma scan_hands_measure:
  assumes "scan_hands env s p linked ords l = Inr l'" and "set ords \<subseteq> order ` set (hands_flat s)"
  shows "length (pending (l_hypo_stacks l') (candidates env s p))
           \<le> length (pending (l_hypo_stacks l) (candidates env s p))
       \<and> (found_new_playable l' \<longrightarrow> found_new_playable l
            \<or> length (pending (l_hypo_stacks l') (candidates env s p))
                < length (pending (l_hypo_stacks l) (candidates env s p)))"
  using assms
proof (induction ords arbitrary: l)
  case Nil
  then show ?case by simp
next
  case (Cons ord ords)
  from Cons.prems(1) obtain l1 where
    one: "scan_card env s p linked ord l = Inr l1" and
    more: "scan_hands env s p linked ords l1 = Inr l'"
    by (auto split: sum.splits)
  from Cons.prems(2) have ord: "ord \<in> order ` set (hands_flat s)" and sub: "set ords \<subseteq> order ` set (hands_flat s)"
    by auto
  note ih = Cons.IH [OF more sub]
  from scan_card_step [OF one ord] show ?case
  proof
    assume "stacks_kept l l1"
    then have "l_hypo_stacks l1 = l_hypo_stacks l" "found_new_playable l1 = found_new_playable l"
      by (simp_all add: stacks_kept_def)
    with ih show ?thesis by simp
  next
    assume "\<exists>i \<in> set (candidates env s p). advanced_by i l l1"
    then obtain i where "i \<in> set (candidates env s p)" "advanced_by i l l1" by blast
    then have "length (pending (l_hypo_stacks l1) (candidates env s p))
               < length (pending (l_hypo_stacks l) (candidates env s p))"
      by (rule pending_advanced [rotated])
    with ih show ?thesis by linarith
  qed
qed

text \<open>
  The \<open>while\<close> loop: a scan of all hands, repeated as long as a scan found a new
  playable card. Every scan that sets the flag advances a stack by a pending candidate,
  which is then pending no longer, so the loop ends.
\<close>

function update_loop :: "player_env \<Rightarrow> state \<Rightarrow> player \<Rightarrow> int list \<Rightarrow> hypo_loop \<Rightarrow> error + hypo_loop" where
  "update_loop env s p linked_orders l =
     (case scan_hands env s p linked_orders (map order (hands_flat s)) (l\<lparr>found_new_playable := False\<rparr>) of
        Inl e \<Rightarrow> Inl e
      | Inr l' \<Rightarrow> if found_new_playable l' then update_loop env s p linked_orders l' else Inr l')"
  by pat_completeness auto
termination
proof (relation "measure (\<lambda>(env, s, p, linked_orders, l).
                   length (pending (l_hypo_stacks l) (candidates env s p)))")
  show "wf (measure (\<lambda>(env, s, p, linked_orders, l).
                   length (pending (l_hypo_stacks l) (candidates env s p))))"
    by simp
next
  fix env s p linked_orders l l'
  assume scan: "scan_hands env s p linked_orders (map order (hands_flat s)) (l\<lparr>found_new_playable := False\<rparr>) = Inr l'"
    and found: "found_new_playable l'"
  from scan_hands_measure [OF scan] found
  show "((env, s, p, linked_orders, l'), (env, s, p, linked_orders, l))
        \<in> measure (\<lambda>(env, s, p, linked_orders, l). length (pending (l_hypo_stacks l) (candidates env s p)))"
    by simp
qed

declare update_loop.simps [simp del]

definition update_hypo_stacks :: "player_env \<Rightarrow> state \<Rightarrow> player \<Rightarrow> error + player \<times> identity list" where
  "update_hypo_stacks env s p =
     (let linked_orders = linkedOrders env s p
      in case update_loop env s p linked_orders
                \<lparr>l_hypo_stacks = play_stacks s, l_unknown_plays = {}, l_good_touch_elim = [],
                 found_new_playable = True, warned = []\<rparr> of
           Inl e \<Rightarrow> Inl e
         | Inr l \<Rightarrow> Inr (p\<lparr>hypo_stacks := l_hypo_stacks l, unknown_plays := l_unknown_plays l\<rparr>, warned l))"

text \<open>
  The stacks of the loop stay as long as the play stacks and at or above them, and the
  unknown plays are orders of cards in a hand.
\<close>

definition above_play_stacks :: "state \<Rightarrow> hypo_loop \<Rightarrow> bool" where
  "above_play_stacks s l =
     (length (l_hypo_stacks l) = length (play_stacks s)
      \<and> (\<forall>k < length (play_stacks s). play_stacks s ! k \<le> l_hypo_stacks l ! k)
      \<and> l_unknown_plays l \<subseteq> order ` set (hands_flat s))"

text \<open>
  The two ways a step handles an identity \<open>i\<close>: the stack of its suit goes from
  \<open>rank i - 1\<close> to \<open>rank i\<close> without a warning, or the identity is refused with a
  warning and the stacks stay.
\<close>

definition one_above :: "identity \<Rightarrow> hypo_loop \<Rightarrow> hypo_loop \<Rightarrow> bool" where
  "one_above i l l' =
     (js_index (l_hypo_stacks l) (suitIndex i) = Some (rank i - 1)
      \<and> l_hypo_stacks l' = (l_hypo_stacks l)[nat (suitIndex i) := rank i]
      \<and> warned l' = warned l)"

definition refused :: "identity \<Rightarrow> hypo_loop \<Rightarrow> hypo_loop \<Rightarrow> bool" where
  "refused i l l' =
     (js_index (l_hypo_stacks l) (suitIndex i) \<noteq> Some (rank i - 1)
      \<and> l_hypo_stacks l' = l_hypo_stacks l
      \<and> warned l' = warned l @ [i])"

section \<open>Interpreting a discard\<close>








text \<open>
  The test "no other waiting connections exist for this": none outside \<open>to_remove\<close>
  has the action index of the connection.
\<close>

definition others_waiting :: "waiting_connection list \<Rightarrow> int \<Rightarrow> nat list \<Rightarrow> bool" where
  "others_waiting wcs idx to_remove =
     list_ex (\<lambda>(index, wc). idx = action_index wc \<and> index \<notin> set to_remove) (enumerate 0 wcs)"








section \<open>Finding a clue\<close>




text \<open>A \<open>ClueResult\<close>, and the clue \<open>determine_clue\<close> returns, which carries one.\<close>

record clue_result =
  elim :: int
  new_touched :: int
  bad_touch :: int
  trash :: int
  finesses :: "(int \<times> card) list"
  playables :: "(int \<times> card) list"
  remainder :: card_value



















section \<open>Example data\<close>

text \<open>
  A three-suit game with nothing discarded, red played up to 3. We are player 0 and hold
  one card we cannot see (order 0), which may be red 4, yellow 1 or red 2; player 1 holds
  yellow 2 (order 5), player 2 yellow 1 (order 7).
\<close>

definition mk_card :: "int \<Rightarrow> int \<Rightarrow> int \<Rightarrow> card" where
  "mk_card s r ord =
     \<lparr>suitIndex = s, rank = r, order = ord, clued = False, newly_clued = False, clues = [],
      possible = [], inferred = [], finessed = False, chop_moved = False, reset = False\<rparr>"

definition unknown_card :: card where
  "unknown_card =
     (mk_card (- 1) (- 1) 0)
       \<lparr>possible := [\<lparr>suitIndex = 0, rank = 4\<rparr>, \<lparr>suitIndex = 1, rank = 1\<rparr>,
                     \<lparr>suitIndex = 0, rank = 2\<rparr>]\<rparr>"

text \<open>Cards are found and matched by the suit index and rank they carry.\<close>

definition example_util_env :: util_env where
  "example_util_env =
     \<lparr>findCards = (\<lambda>h i infer symmetric.
         filter (\<lambda>c. suitIndex c = suitIndex i \<and> rank c = rank i) (hand_cards h)),
      card_matches = (\<lambda>c i options. suitIndex c = suitIndex i \<and> rank c = rank i)\<rparr>"


definition no_variant :: variant where
  "no_variant =
     \<lparr>suits = [''Red'', ''Yellow'', ''Green''], criticalRank = None, specialRank = None,
      specialRankAllClueColors = False, specialRankAllClueRanks = False,
      specialRankNoClueColors = False, specialRankNoClueRanks = False,
      specialRankDeceptive = False, chimneys = False, funnels = False, clueRanks = None\<rparr>"

text \<open>
  What everybody knows about the cards drawn so far (orders 0 to 7): the three cards in
  hand are clued; ours is red 4 or yellow 1 by inference, the other two are known.
\<close>

definition example_thoughts :: "card list" where
  "example_thoughts =
     [unknown_card\<lparr>clued := True,
                    inferred := [\<lparr>suitIndex = 0, rank = 4\<rparr>, \<lparr>suitIndex = 1, rank = 1\<rparr>]\<rparr>,
      mk_card 0 1 1, mk_card 0 2 2, mk_card 0 3 3, mk_card 2 5 4,
      (mk_card 1 2 5)\<lparr>clued := True, possible := [\<lparr>suitIndex = 1, rank = 2\<rparr>],
                       inferred := [\<lparr>suitIndex = 1, rank = 2\<rparr>]\<rparr>,
      mk_card 2 4 6,
      (mk_card 1 1 7)\<lparr>clued := True, possible := [\<lparr>suitIndex = 1, rank = 1\<rparr>],
                       inferred := [\<lparr>suitIndex = 1, rank = 1\<rparr>]\<rparr>]"

definition example_state :: state where
  "example_state =
     \<lparr>tableID = 1, playerNames = [''Alice'', ''Bob'', ''Cathy''], ourPlayerIndex = 0,
      variant = no_variant, in_progress = False, numPlayers = 3,
      hands = [\<lparr>hand_cards = [unknown_card], hand_state = 0\<rparr>,
               \<lparr>hand_cards = [mk_card 1 2 5], hand_state = 0\<rparr>,
               \<lparr>hand_cards = [mk_card 1 1 7], hand_state = 0\<rparr>],
      deck = map as_actual example_thoughts, play_stacks = [3, 0, 0],
      state.hypo_stacks = [[3, 0, 0], [3, 0, 0], [3, 0, 0]],
      discard_stacks = [[0, 0, 0, 0, 0], [0, 0, 0, 0, 0], [0, 0, 0, 0, 0]],
      max_ranks = [5, 5, 5], turn_count = 4, clue_tokens = 8, strikes = 0,
      early_game = True, rewindDepth = 0, copyDepth = 0, cardsLeft = 35, score = 3\<rparr>"

text \<open>The same game as a \<open>PlayfulSieve\<close> object, and a constructor for blank games.\<close>

definition example_game :: playful_sieve where
  "example_game = state.extend example_state (playful_sieve.fields 2)"

definition example_ctor :: state_ctor where
  "example_ctor t names us v prog =
     example_state\<lparr>tableID := t, playerNames := names, ourPlayerIndex := us, variant := v,
                   in_progress := prog, play_stacks := [0, 0, 0], score := 0\<rparr>"

text \<open>
  A rank-2 clue to player 1 whose focus (order 5) is on chop: yellow 1 can be finessed
  from player 2 (order 7) and yellow 2 is critical, so yellow 2 is generated as a play
  and then as a save.
\<close>

definition example_focus_env :: focus_env where
  "example_focus_env =
     \<lparr>determine_focus = (\<lambda>h touched. (mk_card 1 2 5, True)),
      find_connecting = (\<lambda>s g t suitIdx r already.
         if suitIdx = 1 \<and> r = 1
         then Some \<lparr>conn_type = Finesse, reacting = 2, conn_card = mk_card 1 1 7, hidden = False\<rparr>
         else None),
      isCritical3 = (\<lambda>s suitIdx r. suitIdx = 1 \<and> r = 2),
      playableAway3 = (\<lambda>s suitIdx r.
         js_sub (Num r) (js_add (to_num (js_index (play_stacks s) suitIdx)) (Num 1))),
      visibleFind4 = (\<lambda>s g suitIdx r. [mk_card suitIdx r 7]),
      objEquals = (\<lambda>a b. Some a = b)\<rparr>"

definition example_rank_clue :: clue_action where
  "example_rank_clue =
     \<lparr>giver = 0, target = 1, clue_list = [5], clue = \<lparr>clue_type = RANK, clue_value = 2\<rparr>\<rparr>"

definition example_play :: focus_possibility where
  "example_play =
     \<lparr>fp_suitIndex = 1, fp_rank = Num 2, fp_save = False,
      fp_connections = [\<lparr>conn_type = Finesse, reacting = 2,
                         conn_card = (mk_card 1 1 7)\<lparr>finessed := True\<rparr>, hidden = False\<rparr>]\<rparr>"

definition example_save :: focus_possibility where
  "example_save = \<lparr>fp_suitIndex = 1, fp_rank = Num 2, fp_save = True, fp_connections = []\<rparr>"

text \<open>
  The card methods for the example: a card is identified by its single possibility, else
  by the suit and rank it shows, else (when asked to infer) by its single inference; the
  true identity of a card is the one it shows, if it shows one.
\<close>

definition shown_identity :: "actual_card \<Rightarrow> identity option" where
  "shown_identity a =
     (if suitIndex a \<noteq> - 1 \<and> rank a \<noteq> - 1 then Some \<lparr>suitIndex = suitIndex a, rank = rank a\<rparr>
      else None)"

definition example_player_env :: player_env where
  "example_player_env =
     util_env.extend example_util_env
       (player_env.fields
          (\<lambda>c. suitIndex c = - 1 \<or> length (possible c) = 1
                \<or> list_ex (\<lambda>i. identity_eq i (identity_of c)) (inferred c))
          (\<lambda>c options.
             if length (possible c) = 1 then Some (hd (possible c))
             else if suitIndex c \<noteq> - 1 \<and> rank c \<noteq> - 1 then Some (identity_of c)
             else if opt_infer options \<and> length (inferred c) = 1 then Some (hd (inferred c))
             else None)
          shown_identity
          (\<lambda>a i options. case shown_identity a of None \<Rightarrow> opt_assume options | Some x \<Rightarrow> x = i)
          (\<lambda>s p i. 1))"

text \<open>The common perspective (player index \<open>-1\<close>) before its stacks are computed.\<close>

definition example_common :: player where
  "example_common =
     \<lparr>playerIndex = - 1, thoughts = example_thoughts, links = [], hypo_stacks = [0, 0, 0],
      unknown_plays = {}, waiting_connections = []\<rparr>"

text \<open>The variables of the loop at the start of a scan, and a deck in which the card
  of order 7, yellow 1 for everybody, is in truth green 1.\<close>

definition example_loop_start :: hypo_loop where
  "example_loop_start = \<lparr>l_hypo_stacks = [3, 0, 0], l_unknown_plays = {}, l_good_touch_elim = [],
              found_new_playable = False, warned = []\<rparr>"

definition example_wrong_deck :: state where
  "example_wrong_deck = example_state\<lparr>deck := (deck example_state)[7 := as_actual (mk_card 2 1 7)]\<rparr>"














text \<open>
  A game in which player 1 holds two clued cards, of the orders 5 and 6: in truth green 1
  and red 1 (red is played up to 3). Everybody takes each of them for yellow 1 or green 1,
  and a promised link on the two has yellow 1 first.
\<close>

definition example_link_thoughts :: "card list" where
  "example_link_thoughts =
     (take 5 example_thoughts)
     @ [(mk_card (- 1) (- 1) 5)\<lparr>clued := True,
           possible := [\<lparr>suitIndex = 0, rank = 1\<rparr>, \<lparr>suitIndex = 1, rank = 1\<rparr>, \<lparr>suitIndex = 2, rank = 1\<rparr>],
           inferred := [\<lparr>suitIndex = 1, rank = 1\<rparr>, \<lparr>suitIndex = 2, rank = 1\<rparr>]\<rparr>,
        (mk_card (- 1) (- 1) 6)\<lparr>clued := True,
           possible := [\<lparr>suitIndex = 0, rank = 1\<rparr>, \<lparr>suitIndex = 1, rank = 1\<rparr>, \<lparr>suitIndex = 2, rank = 1\<rparr>],
           inferred := [\<lparr>suitIndex = 1, rank = 1\<rparr>, \<lparr>suitIndex = 2, rank = 1\<rparr>]\<rparr>]"

definition example_link_state :: state where
  "example_link_state =
     example_state
       \<lparr>hands := [\<lparr>hand_cards = [], hand_state = 0\<rparr>,
                  \<lparr>hand_cards = [(mk_card 2 1 5)\<lparr>clued := True\<rparr>, (mk_card 0 1 6)\<lparr>clued := True\<rparr>],
                   hand_state = 0\<rparr>,
                  \<lparr>hand_cards = [], hand_state = 0\<rparr>],
        deck := map as_actual (take 5 example_thoughts)
                @ [as_actual ((mk_card 2 1 5)\<lparr>clued := True\<rparr>), as_actual ((mk_card 0 1 6)\<lparr>clued := True\<rparr>)]\<rparr>"

definition example_link :: link where
  "example_link =
     \<lparr>cards = [as_actual ((mk_card 2 1 5)\<lparr>clued := True\<rparr>), as_actual ((mk_card 0 1 6)\<lparr>clued := True\<rparr>)],
      identities = [\<lparr>suitIndex = 1, rank = 1\<rparr>, \<lparr>suitIndex = 2, rank = 1\<rparr>],
      promised = True\<rparr>"

definition example_link_common :: player where
  "example_link_common = example_common\<lparr>thoughts := example_link_thoughts, links := [example_link]\<rparr>"



section \<open>Properties\<close>

text \<open>
  C1 (as the specification states it, refuted): with \<open>play_stacks = [3,0,0]\<close> and the
  identity (suit 0, rank 2), \<open>isBasicTrash\<close> is true and \<open>playableAway\<close> is \<open>-1\<close>.
  The second half fails: \<open>playableAway\<close> is \<open>2 - (3 + 1)\<close>.
\<close>

theorem playableAway_example_not_minus_one:
  "\<not> (isBasicTrash example_state \<lparr>suitIndex = 0, rank = 2\<rparr>
      \<and> playableAway example_state \<lparr>suitIndex = 0, rank = 2\<rparr> = Num (- 1))"
  by (simp add: playableAway_def example_state_def js_index_def)

text \<open>
  C1 (amended): for every state whose play stacks are \<open>[3,0,0]\<close>, the identity
  (suit 0, rank 2) is basic trash and is \<open>-2\<close> away from playable.
\<close>

theorem basic_trash_and_playableAway_example:
  "isBasicTrash (s\<lparr>play_stacks := [3, 0, 0]\<rparr>) \<lparr>suitIndex = 0, rank = 2\<rparr>
   \<and> playableAway (s\<lparr>play_stacks := [3, 0, 0]\<rparr>) \<lparr>suitIndex = 0, rank = 2\<rparr> = Num (- 2)"
  by (simp add: isBasicTrash_def playableAway_def js_index_def)

text \<open>
  C8: in a variant whose copy counts for suit 0 are 3, 2, 2, 2, 1 for the ranks 1 to 5,
  once two copies of the rank-1 card of suit 0 are in the discard pile
  (\<open>discard_stacks[0][0] = 2\<close>), the identity (suit 0, rank 1) is critical.
\<close>

theorem isCritical_example:
  assumes "map (\<lambda>r. cardCount (variant s) \<lparr>suitIndex = 0, rank = r\<rparr>) [1, 2, 3, 4, 5]
           = map (\<lambda>n. Inr (Some n)) [3, 2, 2, 2, 1]"
    and "js_index (discard_stacks s) 0 = Some row"
    and "js_index row 0 = Some 2"
  shows "isCritical s \<lparr>suitIndex = 0, rank = 1\<rparr> = Inr True"
  using assms by (simp add: isCritical_def js_index_def)

theorem isCritical_example_witness:
  "isCritical (example_state\<lparr>discard_stacks := [[2, 0, 0, 0, 0], [0, 0, 0, 0, 0], [0, 0, 0, 0, 0]]\<rparr>)
     \<lparr>suitIndex = 0, rank = 1\<rparr> = Inr True"
  by (rule isCritical_example [where row = "[2, 0, 0, 0, 0]"])
     (simp_all add: example_state_def no_variant_def cardCount_def js_match_def dark_def js_index_def)


text \<open>
  C7: \<open>minimalCopy\<close> throws whenever the copy depth of the game exceeds 3; for a depth
  of at most 3 it returns a new object (an address not in use before) whose copy depth
  is the original's plus one. In both cases every object that existed before the call,
  the original among them, is unchanged.
\<close>

theorem minimalCopy_depth:
  assumes "js_index st this = Some t"
  shows "(copyDepth t > 3 \<longrightarrow> snd (minimalCopy ctor st this) = Inl DepthError)
       \<and> (copyDepth t \<le> 3 \<longrightarrow>
            (\<exists>n. snd (minimalCopy ctor st this) = Inr n \<and> js_index st n = None
               \<and> map_option copyDepth (js_index (fst (minimalCopy ctor st this)) n)
                   = Some (copyDepth t + 1)))
       \<and> (\<forall>a x. js_index st a = Some x \<longrightarrow> js_index (fst (minimalCopy ctor st this)) a = Some x)"
  using assms by (auto simp: minimalCopy_def Let_def nth_append js_index_def split: if_splits)

theorem minimalCopy_depth_witness:
  "snd (minimalCopy example_ctor [example_game] 0) = Inr 1
   \<and> map_option copyDepth (js_index (fst (minimalCopy example_ctor [example_game] 0)) 1) = Some 1
   \<and> js_index (fst (minimalCopy example_ctor [example_game] 0)) 0 = Some example_game
   \<and> snd (minimalCopy example_ctor [example_game\<lparr>copyDepth := 4\<rparr>] 0) = Inl DepthError"
proof -
  have a: "js_index [example_game] 0 = Some example_game"
    by (simp add: js_index_def)
  have b: "js_index [example_game\<lparr>copyDepth := 4\<rparr>] 0 = Some (example_game\<lparr>copyDepth := 4\<rparr>)"
    by (simp add: js_index_def)
  have c: "copyDepth example_game = 0"
    by (simp add: example_game_def example_state_def state.defs)
  have r: "snd (minimalCopy example_ctor [example_game] 0) = Inr 1"
    by (simp add: minimalCopy_def c js_index_def)
  from minimalCopy_depth [OF a, of example_ctor] c r
  have d: "map_option copyDepth (js_index (fst (minimalCopy example_ctor [example_game] 0)) 1) = Some 1"
    by auto
  from minimalCopy_depth [OF a, of example_ctor] a
  have e: "js_index (fst (minimalCopy example_ctor [example_game] 0)) 0 = Some example_game"
    by blast
  from minimalCopy_depth [OF b, of example_ctor]
  have f: "snd (minimalCopy example_ctor [example_game\<lparr>copyDepth := 4\<rparr>] 0) = Inl DepthError"
    by simp
  from r d e f show ?thesis
    by simp
qed

subsection \<open>Duplicates among the focus possibilities\<close>

lemma enumerate_index_ge: "(i, x) \<in> set (enumerate k xs) \<Longrightarrow> k \<le> i \<and> x \<in> set xs"
  by (auto simp: in_set_enumerate_eq)

lemma later_same_pair:
  "list_ex (\<lambda>(index2, p2). same_pair p p2 \<and> k < index2) (enumerate (Suc k) xs)
   = (\<exists>q \<in> set xs. same_pair p q)"
proof -
  have "\<exists>i. (i, q) \<in> set (enumerate (Suc k) xs) \<and> k < i" if "q \<in> set xs" for q
  proof -
    from that obtain j where "j < length xs" "xs ! j = q"
      by (auto simp: in_set_conv_nth)
    then have "(Suc k + j, q) \<in> set (enumerate (Suc k) xs)"
      by (simp add: in_set_enumerate_eq)
    then show ?thesis
      by (intro exI [of _ "Suc k + j"]) simp
  qed
  then show ?thesis
    by (fastforce simp: list_ex_iff dest: enumerate_index_ge)
qed

lemma filter_enumerate_prefix:
  assumes "\<forall>(i, q) \<in> set pre. i < k"
  shows "filter (\<lambda>(index1, p1). \<not> list_ex (\<lambda>(index2, p2). same_pair p1 p2 \<and> index1 < index2) (pre @ enumerate k xs))
           (enumerate k xs)
       = filter (\<lambda>(index1, p1). \<not> list_ex (\<lambda>(index2, p2). same_pair p1 p2 \<and> index1 < index2) (enumerate k xs))
           (enumerate k xs)"
proof (rule filter_cong [OF refl])
  fix e assume e: "e \<in> set (enumerate k xs)"
  obtain i p where ip: "e = (i, p)" by (cases e)
  with e have "k \<le> i" by (auto dest: enumerate_index_ge)
  with assms have "\<not> list_ex (\<lambda>(index2, p2). same_pair p p2 \<and> i < index2) pre"
    by (fastforce simp: list_ex_iff)
  then show "(case e of (index1, p1) \<Rightarrow> \<not> list_ex (\<lambda>(index2, p2). same_pair p1 p2 \<and> index1 < index2) (pre @ enumerate k xs))
     = (case e of (index1, p1) \<Rightarrow> \<not> list_ex (\<lambda>(index2, p2). same_pair p1 p2 \<and> index1 < index2) (enumerate k xs))"
    by (simp add: ip)
qed

lemma kept_from_Cons:
  "kept_from k (p # ps) = (if \<exists>q \<in> set ps. same_pair p q then [] else [p]) @ kept_from (Suc k) ps"
proof -
  have "filter (\<lambda>(index1, p1). \<not> list_ex (\<lambda>(index2, p2). same_pair p1 p2 \<and> index1 < index2) ([(k, p)] @ enumerate (Suc k) ps))
           (enumerate (Suc k) ps)
       = filter (\<lambda>(index1, p1). \<not> list_ex (\<lambda>(index2, p2). same_pair p1 p2 \<and> index1 < index2) (enumerate (Suc k) ps))
           (enumerate (Suc k) ps)"
    by (rule filter_enumerate_prefix) simp
  then show ?thesis
    using later_same_pair [of p k ps] by (simp add: kept_from_def)
qed

lemma same_pair_with_pair:
  "fp_suitIndex p = si \<Longrightarrow> fp_rank p = Num r \<Longrightarrow> (\<exists>q \<in> set ps. same_pair p q) = (with_pair si r ps \<noteq> [])"
proof -
  assume a: "fp_suitIndex p = si" "fp_rank p = Num r"
  have "\<And>q. same_pair p q = (fp_suitIndex q = si \<and> fp_rank q = Num r)"
  proof -
    fix q show "same_pair p q = (fp_suitIndex q = si \<and> fp_rank q = Num r)"
      using a by (cases "fp_rank q") (auto simp: same_pair_def)
  qed
  then show ?thesis
    by (auto simp: with_pair_def filter_empty_conv)
qed

lemma with_pair_kept_from:
  "with_pair si r (kept_from k gen)
   = (if with_pair si r gen = [] then [] else [last (with_pair si r gen)])"
proof (induction gen arbitrary: k)
  case Nil
  show ?case by (simp add: kept_from_def with_pair_def)
next
  case (Cons p ps)
  have app: "\<And>xs ys. with_pair si r (xs @ ys) = with_pair si r xs @ with_pair si r ys"
    by (simp add: with_pair_def)
  show ?case
  proof (cases "fp_suitIndex p = si \<and> fp_rank p = Num r")
    case True
    then have hd: "with_pair si r (p # ps) = p # with_pair si r ps" "with_pair si r [p] = [p]"
      by (simp_all add: with_pair_def)
    from True have ex: "(\<exists>q \<in> set ps. same_pair p q) = (with_pair si r ps \<noteq> [])"
      by (simp add: same_pair_with_pair)
    have nil: "with_pair si r [] = []" by (simp add: with_pair_def)
    show ?thesis
      using Cons.IH [of "Suc k"] by (simp add: kept_from_Cons app hd ex nil)
  next
    case False
    then have hd: "with_pair si r (p # ps) = with_pair si r ps" "with_pair si r [p] = []"
      by (auto simp: with_pair_def)
    have nil: "with_pair si r [] = []" by (simp add: with_pair_def)
    show ?thesis
      using Cons.IH [of "Suc k"] by (simp add: kept_from_Cons app hd nil)
  qed
qed

text \<open>
  C6: the list \<open>find_focus_possible\<close> returns holds, for every pair of a suit index and
  a rank, at most one entry; when the pair was generated (once or several times) the
  entry it holds is the one generated last, so a save generated after a play of the
  same pair is the one kept.
\<close>

theorem find_focus_possible_keeps_last:
  assumes "find_focus_possible env s action = Inr res"
  shows "\<exists>gen. generated_focus_possible env s action = Inr gen
           \<and> (\<forall>si r. with_pair si r res
                      = (if with_pair si r gen = [] then [] else [last (with_pair si r gen)]))"
proof (cases "generated_focus_possible env s action")
  case (Inl e)
  with assms show ?thesis by (simp add: find_focus_possible_def)
next
  case (Inr gen)
  with assms have "res = kept_from 0 gen"
    by (auto simp: find_focus_possible_def remove_earlier_duplicates_def kept_from_def)
  with Inr show ?thesis
    by (simp add: with_pair_kept_from)
qed

theorem find_focus_possible_keeps_last_witness:
  "find_focus_possible example_focus_env example_state example_rank_clue = Inr [example_save]
   \<and> generated_focus_possible example_focus_env example_state example_rank_clue
       = Inr [example_play, example_save]
   \<and> with_pair 1 2 [example_save] = [last (with_pair 1 2 [example_play, example_save])]"
proof -
  have g: "generated_focus_possible example_focus_env example_state example_rank_clue
           = Inr [example_play, example_save]"
    by (simp add: generated_focus_possible_def find_rank_focus_def rank_plays_def rank_saves_def
        example_focus_env_def example_state_def example_rank_clue_def no_variant_def
        concat_focus_def example_play_def example_save_def objClone_def mark_connections_def
        mark_finessed_def mk_card_def increment_stack_def Let_def upt_rec js_index_def)
  have d: "remove_earlier_duplicates [example_play, example_save] = [example_save]"
    by (simp add: remove_earlier_duplicates_def same_pair_def example_play_def example_save_def)
  have r: "find_focus_possible example_focus_env example_state example_rank_clue = Inr [example_save]"
    by (simp add: find_focus_possible_def g d)
  from find_focus_possible_keeps_last [OF r] g
  have "with_pair 1 2 [example_save]
        = (if with_pair 1 2 [example_play, example_save] = [] then []
           else [last (with_pair 1 2 [example_play, example_save])])"
    by auto
  moreover have "with_pair 1 2 [example_play, example_save] \<noteq> []"
    by (simp add: with_pair_def example_play_def)
  ultimately show ?thesis
    using r g by simp
qed

subsection \<open>The value of an unknown card\<close>

lemma sum_values_numbers:
  "\<forall>i \<in> set xs. f i = Inr (Num (v i)) \<Longrightarrow>
   sum_values (map f xs) (Num a) = Inr (Num (a + (\<Sum>i\<leftarrow>xs. v i)))"
  by (induction xs arbitrary: a) (simp_all add: add.assoc)

text \<open>
  C9: for a card belief with suit index \<open>-1\<close> (an unknown card of our own hand) and a
  non-empty possible set, \<open>cardValue\<close> returns the mean of the values of the possible
  identities, the quotient of their sum by their number, whatever the fixed cases 0, 5
  and 4 would give; \<open>v\<close> names the value \<open>cardValue\<close> gives each identity.
\<close>

theorem cardValue_unknown_is_mean:
  assumes "suitIndex c = - 1" and "possible c \<noteq> []"
    and "\<forall>i \<in> set (possible c). cardValue env s (Plain i) (- 1) = Inr (Exact (Num (v i)))"
  shows "cardValue env s (Belief c) ord
         = Inr (Mean (Num (\<Sum>i\<leftarrow>possible c. v i)) (length (possible c)))"
proof -
  have "known_value env s i (- 1) = Inr (Num (v i))" if "i \<in> set (possible c)" for i
  proof -
    from assms(3) that have "map_sum id Exact (known_value env s i (- 1)) = Inr (Exact (Num (v i)))"
      by simp
    then show ?thesis
      by (cases "known_value env s i (- 1)") auto
  qed
  then have "sum_values (map (\<lambda>curr. known_value env s curr (- 1)) (possible c)) (Num 0)
             = Inr (Num (0 + (\<Sum>i\<leftarrow>possible c. v i)))"
    by (intro sum_values_numbers) simp
  with assms(1) show ?thesis
    by simp
qed

lemma example_value_red4: "known_value example_util_env example_state \<lparr>suitIndex = 0, rank = 4\<rparr> (- 1) = Inr (Num 4)"
  by (simp add: known_value_def isTrash_def isBasicTrash_def isSaved_def visibleFind_def
      visibleFind_player_def unique2_def isCritical_def cardCount_def js_match_def dark_def
      example_util_env_def example_state_def no_variant_def no_options_def mk_card_def
      unknown_card_def upto.simps js_index_def)

lemma example_value_yellow1: "known_value example_util_env example_state \<lparr>suitIndex = 1, rank = 1\<rparr> (- 1) = Inr (Num 4)"
  by (simp add: known_value_def isTrash_def isBasicTrash_def isSaved_def visibleFind_def
      visibleFind_player_def unique2_def isCritical_def cardCount_def js_match_def dark_def
      example_util_env_def example_state_def no_variant_def no_options_def mk_card_def
      unknown_card_def upto.simps js_index_def)

lemma example_value_red2: "known_value example_util_env example_state \<lparr>suitIndex = 0, rank = 2\<rparr> (- 1) = Inr (Num 0)"
  by (simp add: known_value_def isTrash_def isBasicTrash_def isSaved_def visibleFind_def
      visibleFind_player_def unique2_def isCritical_def cardCount_def js_match_def dark_def
      example_util_env_def example_state_def no_variant_def no_options_def mk_card_def
      unknown_card_def upto.simps js_index_def)


theorem cardValue_unknown_is_mean_witness:
  "cardValue example_util_env example_state (Belief unknown_card) (- 1) = Inr (Mean (Num 8) 3)"
proof -
  let ?v = "\<lambda>i. if i = \<lparr>suitIndex = 0, rank = 2\<rparr> then 0 else (4::int)"
  have p: "possible unknown_card
           = [\<lparr>suitIndex = 0, rank = 4\<rparr>, \<lparr>suitIndex = 1, rank = 1\<rparr>, \<lparr>suitIndex = 0, rank = 2\<rparr>]"
    by (simp add: unknown_card_def mk_card_def)
  have a: "suitIndex unknown_card = - 1"
    by (simp add: unknown_card_def mk_card_def)
  have b: "possible unknown_card \<noteq> []"
    by (simp add: p)
  have c: "\<forall>i \<in> set (possible unknown_card).
             cardValue example_util_env example_state (Plain i) (- 1) = Inr (Exact (Num (?v i)))"
    by (simp add: p example_value_red4 example_value_yellow1 example_value_red2)
  from cardValue_unknown_is_mean [of unknown_card example_util_env example_state ?v, OF a b c]
  show ?thesis
    by (simp add: p)
qed

subsection \<open>The hypothetical stacks\<close>

lemma advanced_by_above:
  assumes "advanced_by i l l'" and "k < length (l_hypo_stacks l)"
  shows "length (l_hypo_stacks l') = length (l_hypo_stacks l) \<and> l_hypo_stacks l ! k \<le> l_hypo_stacks l' ! k"
proof -
  from assms(1) have old: "js_index (l_hypo_stacks l) (suitIndex i) = Some (rank i - 1)"
    and new: "l_hypo_stacks l' = (l_hypo_stacks l)[nat (suitIndex i) := rank i]"
    by (simp_all add: advanced_by_def)
  from old have "l_hypo_stacks l ! nat (suitIndex i) = rank i - 1"
    by (auto simp: js_index_def split: if_splits)
  with assms(2) show ?thesis
    unfolding new by (cases "k = nat (suitIndex i)") simp_all
qed

lemma scan_card_above:
  assumes "scan_card env s p linked ord l = Inr l'" and "ord \<in> order ` set (hands_flat s)"
    and "above_play_stacks s l"
  shows "above_play_stacks s l'"
proof -
  from scan_card_cases [OF assms(1)] assms(2,3)
  have u: "l_unknown_plays l' \<subseteq> order ` set (hands_flat s)"
    by (auto simp: above_play_stacks_def)
  from scan_card_cases [OF assms(1)]
  have "stacks_kept l l' \<or> (\<exists>i. advanced_by i l l')" by blast
  then show ?thesis
  proof
    assume "stacks_kept l l'"
    with assms(3) u show ?thesis by (simp add: above_play_stacks_def stacks_kept_def)
  next
    assume "\<exists>i. advanced_by i l l'"
    then obtain i where i: "advanced_by i l l'" ..
    from assms(3) have len: "length (l_hypo_stacks l) = length (play_stacks s)"
      and ge: "\<And>k. k < length (play_stacks s) \<Longrightarrow> play_stacks s ! k \<le> l_hypo_stacks l ! k"
      by (simp_all add: above_play_stacks_def)
    have "play_stacks s ! k \<le> l_hypo_stacks l' ! k" if "k < length (play_stacks s)" for k
      using advanced_by_above [OF i, of k] ge [OF that] that len by simp
    moreover have "length (l_hypo_stacks l') = length (play_stacks s)"
      using i len by (simp add: advanced_by_def)
    ultimately show ?thesis using u by (simp add: above_play_stacks_def)
  qed
qed

lemma scan_hands_above:
  assumes "scan_hands env s p linked ords l = Inr l'" and "set ords \<subseteq> order ` set (hands_flat s)"
    and "above_play_stacks s l"
  shows "above_play_stacks s l'"
  using assms
proof (induction ords arbitrary: l)
  case Nil
  then show ?case by simp
next
  case (Cons ord ords)
  from Cons.prems(1) obtain l1 where
    one: "scan_card env s p linked ord l = Inr l1" and
    rest: "scan_hands env s p linked ords l1 = Inr l'"
    by (auto split: sum.splits)
  from Cons.prems(2) have "ord \<in> order ` set (hands_flat s)" "set ords \<subseteq> order ` set (hands_flat s)"
    by auto
  with one rest Cons.prems(3) Cons.IH show ?case
    by (blast intro: scan_card_above)
qed

lemma update_loop_above:
  "update_loop env s p linked l = Inr l' \<Longrightarrow> above_play_stacks s l \<Longrightarrow> above_play_stacks s l'"
proof (induction env s p linked l rule: update_loop.induct)
  case (1 env s p linked l)
  let ?l0 = "l\<lparr>found_new_playable := False\<rparr>"
  from "1.prems"(1) obtain l1 where
    scan: "scan_hands env s p linked (map order (hands_flat s)) ?l0 = Inr l1"
    by (subst (asm) update_loop.simps) (auto split: sum.splits)
  from "1.prems"(2) have "above_play_stacks s ?l0"
    by (simp add: above_play_stacks_def)
  with scan have a1: "above_play_stacks s l1"
    by (auto intro: scan_hands_above)
  show ?case
  proof (cases "found_new_playable l1")
    case True
    with "1.prems"(1) scan have "update_loop env s p linked l1 = Inr l'"
      by (subst (asm) update_loop.simps) simp
    with "1.IH" [OF scan True] a1 show ?thesis by simp
  next
    case False
    with "1.prems"(1) scan have "l' = l1"
      by (subst (asm) update_loop.simps) simp
    with a1 show ?thesis by simp
  qed
qed

text \<open>
  C10: when \<open>update_hypo_stacks\<close> returns, the hypothetical stack of every suit is at
  or above the play stack of that suit (there are as many of the one as of the other),
  and every order among the unknown plays is the order of a card in some hand.
\<close>

theorem hypo_stacks_above_play_stacks:
  assumes "update_hypo_stacks env s p = Inr (p', w)"
  shows "length (hypo_stacks p') = length (play_stacks s)
       \<and> (\<forall>suit < length (play_stacks s). play_stacks s ! suit \<le> hypo_stacks p' ! suit)
       \<and> unknown_plays p' \<subseteq> order ` set (hands_flat s)"
proof -
  let ?l0 = "\<lparr>l_hypo_stacks = play_stacks s, l_unknown_plays = {}, l_good_touch_elim = [],
              found_new_playable = True, warned = []\<rparr>"
  from assms obtain l where
    loop: "update_loop env s p (linkedOrders env s p) ?l0 = Inr l" and
    p': "p' = p\<lparr>hypo_stacks := l_hypo_stacks l, unknown_plays := l_unknown_plays l\<rparr>"
    by (auto simp: update_hypo_stacks_def Let_def split: sum.splits)
  have "above_play_stacks s ?l0"
    by (simp add: above_play_stacks_def)
  with loop have "above_play_stacks s l"
    by (rule update_loop_above)
  with p' show ?thesis
    by (simp add: above_play_stacks_def)
qed

lemmas example_defs =
  example_player_env_def example_util_env_def example_common_def example_state_def
  example_thoughts_def unknown_card_def mk_card_def shown_identity_def no_variant_def
  util_env.defs player_env.defs

lemmas scan_defs =
  scan_card_def fake_wcs_def false_update_def unknown_play_def advance_def on_value_def
  delayed_playable_def identity_eq_def identity_matches_def identity_of_def saved_def
  subtract_def hands_flat_def as_actual_def plain_match_def js_index_def Let_def

lemma example_orders: "map order (hands_flat example_state) = [0, 5, 7]"
  by (simp add: hands_flat_def example_state_def unknown_card_def mk_card_def)

lemma example_run: "update_hypo_stacks example_player_env example_state example_common
   = Inr (example_common\<lparr>hypo_stacks := [3, 2, 0], unknown_plays := {0}\<rparr>, [])"
  by (simp add: update_hypo_stacks_def linkedOrders_def update_loop.simps example_orders example_defs scan_defs)


text \<open>
  The run on the example: the yellow 1 and then the yellow 2 are put on the stacks, and
  our own card is playable whichever of its two inferences it is.
\<close>

theorem hypo_stacks_above_play_stacks_witness:
  "update_hypo_stacks example_player_env example_state example_common
     = Inr (example_common\<lparr>hypo_stacks := [3, 2, 0], unknown_plays := {0}\<rparr>, [])
   \<and> length [3, 2, 0 :: int] = length (play_stacks example_state)
   \<and> {0} \<subseteq> order ` set (hands_flat example_state)"
  using hypo_stacks_above_play_stacks [OF example_run] example_run by simp


lemma advance_refused:
  "js_index (l_hypo_stacks l) (suitIndex i) \<noteq> Some (rank i - 1) \<Longrightarrow>
   advance i l = l\<lparr>warned := warned l @ [i]\<rparr>"
  unfolding advance_def js_eq_next_rank by simp

lemma advance_made:
  "js_index (l_hypo_stacks l) (suitIndex i) = Some (rank i - 1) \<Longrightarrow>
   advance i l = l\<lparr>l_hypo_stacks := (l_hypo_stacks l)[nat (suitIndex i) := rank i],
                    l_good_touch_elim := l_good_touch_elim l @ [i],
                    found_new_playable := True\<rparr>"
  unfolding advance_def js_eq_next_rank by simp

lemma advance_outcome:
  assumes "l_hypo_stacks l1 = l_hypo_stacks l" and "warned l1 = warned l"
  shows "one_above i l (advance i l1) \<or> refused i l (advance i l1)"
proof (cases "js_index (l_hypo_stacks l1) (suitIndex i) = Some (rank i - 1)")
  case True
  with assms show ?thesis by (simp add: advance_made one_above_def)
next
  case False
  with assms show ?thesis by (simp add: advance_refused refused_def)
qed

lemma unknown_play_outcome:
  assumes "unknown_play p ord l = Inr l'"
  shows "(l_hypo_stacks l' = l_hypo_stacks l \<and> warned l' = warned l)
         \<or> (\<exists>i. one_above i l l' \<or> refused i l l')"
proof -
  let ?l1 = "l\<lparr>l_unknown_plays := insert ord (l_unknown_plays l)\<rparr>"
  have "l' = ?l1 \<or> (\<exists>i. l' = advance i ?l1)"
    using assms by (auto simp: unknown_play_def Let_def split: option.splits if_splits list.splits)
  then show ?thesis
  proof
    assume "l' = ?l1"
    then show ?thesis by simp
  next
    assume "\<exists>i. l' = advance i ?l1"
    then obtain i where "l' = advance i ?l1" ..
    with advance_outcome [of ?l1 l i] show ?thesis by auto
  qed
qed

lemma scan_card_outcome:
  assumes "scan_card env s p linked ord l = Inr l'"
  shows "(l_hypo_stacks l' = l_hypo_stacks l \<and> warned l' = warned l)
         \<or> (\<exists>i. one_above i l l' \<or> refused i l l')"
proof (cases "l' = l")
  case True
  then show ?thesis by simp
next
  case False
  from assms obtain c where c: "js_index (thoughts p) ord = Some c"
    by (cases "js_index (thoughts p) ord") (auto simp: scan_card_def)
  with assms False have
    r: "(case card_identity env c \<lparr>opt_assume = False, opt_infer = True\<rparr> of
           None \<Rightarrow> unknown_play p ord l | Some i \<Rightarrow> Inr (advance i l)) = Inr l'"
    by (auto simp: scan_card_def on_value_def Let_def split: if_splits sum.splits option.splits)
  show ?thesis
  proof (cases "card_identity env c \<lparr>opt_assume = False, opt_infer = True\<rparr>")
    case None
    with r have "unknown_play p ord l = Inr l'" by simp
    then show ?thesis by (rule unknown_play_outcome)
  next
    case (Some i)
    with r have "l' = advance i l" by simp
    with advance_outcome [of l l i] show ?thesis by auto
  qed
qed

lemma filter_of_total:
  "(\<And>x. x \<in> set xs \<Longrightarrow> \<exists>b. f x = Inr b) \<Longrightarrow> \<exists>ys. filter_of f xs = Inr ys"
proof (induction xs)
  case Nil
  show ?case by simp
next
  case (Cons x xs)
  then obtain b ys where "f x = Inr b" "filter_of f xs = Inr ys"
    by (meson list.set_intros)
  then show ?case by simp
qed

lemma fake_wcs_total:
  assumes "js_index (deck s) ord = Some a"
  shows "\<exists>fakes. fake_wcs env s p ord = Inr fakes"
  unfolding fake_wcs_def
  by (rule filter_of_total) (auto simp: deck_matches_def on_value_def assms)

lemma scan_card_skips:
  assumes "playerIndex p = - 1" and "js_index (thoughts p) ord = Some c"
    and "js_index (deck s) ord = Some a" and "actual_identity env a = Some actual"
    and "(\<exists>i. card_identity env c \<lparr>opt_assume = False, opt_infer = True\<rparr> = Some i \<and> \<not> identity_eq i actual)
         \<or> list_ex (\<lambda>x. order x \<in> l_unknown_plays l \<and> actual_matches env (as_actual x) actual plain_match)
              (hands_flat s)"
  shows "scan_card env s p linked ord l = Inr l"
proof -
  from fake_wcs_total [OF assms(3)] obtain fakes where f: "fake_wcs env s p ord = Inr fakes" ..
  have "false_update env s p l ord (card_identity env c \<lparr>opt_assume = False, opt_infer = True\<rparr>) (Some actual)
        = Inr True"
    using assms(1,5) by (auto simp: false_update_def)
  then show ?thesis
    by (simp add: scan_card_def assms(2,3,4) f on_value_def Let_def)
qed

text \<open>
  What the steps of the scan do: in every run of \<open>update_hypo_stacks\<close> the stacks
  change only in the steps of the scan, and a step that returns either leaves stacks and
  warnings alone, or advances the stack of one suit to exactly one above its value, or
  refuses an identity whose rank is not the stack plus one: a warning, the stacks
  unchanged, no error. For the common perspective (player index \<open>-1\<close>), a card whose
  identity for the player contradicts the one the deck has for it, or whose identity in
  the deck is that of a card in a hand already among the unknown plays, is skipped: the
  step returns normally with nothing changed. (The loop itself always ends: it is a total
  function.) The guard compares the identity the player has for the card; it says nothing
  of the identity a promised link puts on the stacks.
\<close>

lemma scan_card_advances_by_one:
  "(\<forall>l'. scan_card env s p linked ord l = Inr l' \<longrightarrow>
      (l_hypo_stacks l' = l_hypo_stacks l \<and> warned l' = warned l)
      \<or> (\<exists>i. one_above i l l' \<or> refused i l l'))
   \<and> (playerIndex p = - 1 \<and> js_index (thoughts p) ord = Some c
        \<and> js_index (deck s) ord = Some a \<and> actual_identity env a = Some actual
        \<and> ((\<exists>i. card_identity env c \<lparr>opt_assume = False, opt_infer = True\<rparr> = Some i
                  \<and> \<not> identity_eq i actual)
            \<or> list_ex (\<lambda>x. order x \<in> l_unknown_plays l
                              \<and> actual_matches env (as_actual x) actual plain_match) (hands_flat s))
      \<longrightarrow> scan_card env s p linked ord l = Inr l)"
  using scan_card_outcome scan_card_skips by blast


lemma scan_card_advances_by_one_example:
  "scan_card example_player_env example_wrong_deck example_common [] 7 example_loop_start = Inr example_loop_start
   \<and> scan_card example_player_env example_state example_common [] 7 example_loop_start
       = Inr (example_loop_start\<lparr>l_hypo_stacks := [3, 1, 0], l_good_touch_elim := [\<lparr>suitIndex = 1, rank = 1\<rparr>],
                  found_new_playable := True\<rparr>)
   \<and> (\<exists>i. one_above i example_loop_start (example_loop_start\<lparr>l_hypo_stacks := [3, 1, 0],
                              l_good_touch_elim := [\<lparr>suitIndex = 1, rank = 1\<rparr>],
                              found_new_playable := True\<rparr>))"
proof -
  let ?c = "(mk_card 1 1 7)\<lparr>clued := True, possible := [\<lparr>suitIndex = 1, rank = 1\<rparr>],
                               inferred := [\<lparr>suitIndex = 1, rank = 1\<rparr>]\<rparr>"
  let ?l1 = "example_loop_start\<lparr>l_hypo_stacks := [3, 1, 0], l_good_touch_elim := [\<lparr>suitIndex = 1, rank = 1\<rparr>],
                 found_new_playable := True\<rparr>"
  note main = scan_card_advances_by_one
  have skip: "scan_card example_player_env example_wrong_deck example_common [] 7 example_loop_start = Inr example_loop_start"
  proof -
    have "playerIndex example_common = - 1
          \<and> js_index (thoughts example_common) 7 = Some ?c
          \<and> js_index (deck example_wrong_deck) 7 = Some (as_actual (mk_card 2 1 7))
          \<and> actual_identity example_player_env (as_actual (mk_card 2 1 7)) = Some \<lparr>suitIndex = 2, rank = 1\<rparr>
          \<and> ((\<exists>i. card_identity example_player_env ?c \<lparr>opt_assume = False, opt_infer = True\<rparr> = Some i
                    \<and> \<not> identity_eq i \<lparr>suitIndex = 2, rank = 1\<rparr>)
              \<or> list_ex (\<lambda>x. order x \<in> l_unknown_plays example_loop_start
                              \<and> actual_matches example_player_env (as_actual x) \<lparr>suitIndex = 2, rank = 1\<rparr> plain_match)
                    (hands_flat example_wrong_deck))"
      by (simp add: example_defs example_wrong_deck_def scan_defs)
    with main [of example_player_env example_wrong_deck example_common "[]" 7 example_loop_start ?c
                "as_actual (mk_card 2 1 7)" "\<lparr>suitIndex = 2, rank = 1\<rparr>"]
    show ?thesis by blast
  qed
  have run: "scan_card example_player_env example_state example_common [] 7 example_loop_start = Inr ?l1"
    by (simp add: example_defs scan_defs example_loop_start_def)
  have changed: "l_hypo_stacks ?l1 \<noteq> l_hypo_stacks example_loop_start" "warned ?l1 = warned example_loop_start"
    by (simp_all add: example_loop_start_def)
  from main [of example_player_env example_state example_common "[]" 7 example_loop_start] run
  have "(l_hypo_stacks ?l1 = l_hypo_stacks example_loop_start \<and> warned ?l1 = warned example_loop_start)
        \<or> (\<exists>i. one_above i example_loop_start ?l1 \<or> refused i example_loop_start ?l1)"
    by blast
  with changed have "\<exists>i. one_above i example_loop_start ?l1"
    by (auto simp: refused_def)
  with skip run show ?thesis by simp
qed

lemma example_link_orders: "map order (hands_flat example_link_state) = [5, 6]"
  by (simp add: hands_flat_def example_link_state_def mk_card_def)

text \<open>
  C4 (the code where it departs from the claim): for the common perspective, an advance
  is not to be made with an identity that contradicts the identity the deck has for the
  card. In the example the cards of the orders 5 and 6 are green 1 and red 1 in the deck
  and no card in a hand is yellow 1. The player has no identity for either card, so both
  pass the guard against false updates and become unknown plays; with the second the
  promised link is complete and its first identity, yellow 1, is put on the stacks:
  yellow goes from 0 to 1 and no warning is given.
\<close>

theorem update_hypo_stacks_link_contradicts_deck:
  "playerIndex example_link_common = - 1
   \<and> play_stacks example_link_state = [3, 0, 0]
   \<and> map order (hands_flat example_link_state) = [5, 6]
   \<and> map_option (actual_identity example_player_env) (js_index (deck example_link_state) 5)
       = Some (Some \<lparr>suitIndex = 2, rank = 1\<rparr>)
   \<and> map_option (actual_identity example_player_env) (js_index (deck example_link_state) 6)
       = Some (Some \<lparr>suitIndex = 0, rank = 1\<rparr>)
   \<and> update_hypo_stacks example_player_env example_link_state example_link_common
       = Inr (example_link_common\<lparr>hypo_stacks := [3, 1, 0], unknown_plays := {5, 6}\<rparr>, [])"
  by (simp add: update_hypo_stacks_def linkedOrders_def update_loop.simps example_link_orders
      example_link_state_def example_link_common_def example_link_def example_link_thoughts_def
      example_defs scan_defs insert_commute)


lemma fake_wcs_frame:
  "fake_wcs env s (p\<lparr>hypo_stacks := h, unknown_plays := u\<rparr>) ord = fake_wcs env s p ord"
  by (simp add: fake_wcs_def)

lemma false_update_frame:
  "false_update env s (p\<lparr>hypo_stacks := h, unknown_plays := u\<rparr>) l ord ident actual_id
   = false_update env s p l ord ident actual_id"
  by (simp add: false_update_def cong: if_cong)

lemma unknown_play_frame:
  "unknown_play (p\<lparr>hypo_stacks := h, unknown_plays := u\<rparr>) ord l = unknown_play p ord l"
  by (simp add: unknown_play_def)

lemma scan_card_frame:
  "scan_card env s (p\<lparr>hypo_stacks := h, unknown_plays := u\<rparr>) linked ord l = scan_card env s p linked ord l"
  by (simp add: scan_card_def fake_wcs_frame false_update_frame unknown_play_frame
      cong: if_cong option.case_cong)

lemma scan_hands_frame:
  "scan_hands env s (p\<lparr>hypo_stacks := h, unknown_plays := u\<rparr>) linked ords l = scan_hands env s p linked ords l"
  by (induction ords arbitrary: l) (simp_all add: scan_card_frame split: sum.splits)

lemma update_loop_frame:
  "update_loop env s (p\<lparr>hypo_stacks := h, unknown_plays := u\<rparr>) linked l = update_loop env s p linked l"
proof (induction env s p linked l rule: update_loop.induct)
  case (1 env s p linked l)
  show ?case
    by (subst update_loop.simps, subst (2) update_loop.simps)
       (simp add: scan_hands_frame "1.IH" split: sum.splits)
qed

text \<open>
  C2: calling \<open>update_hypo_stacks\<close> again on the player it returned, with the same
  state, returns that player again: the same stacks and the same unknown plays. The
  count of unknown identities, which Player.js calls with the player, is taken not to
  read the two fields the function writes.
\<close>

theorem update_hypo_stacks_idempotent:
  assumes "\<forall>h u i. unknownIdentitiesOf env s (p\<lparr>hypo_stacks := h, unknown_plays := u\<rparr>) i
                     = unknownIdentitiesOf env s p i"
    and "update_hypo_stacks env s p = Inr (p', w)"
  shows "update_hypo_stacks env s p' = Inr (p', w)"
proof -
  let ?example_loop_start = "\<lparr>l_hypo_stacks = play_stacks s, l_unknown_plays = {}, l_good_touch_elim = [],
              found_new_playable = True, warned = []\<rparr>"
  from assms(2) obtain l where
    loop: "update_loop env s p (linkedOrders env s p) ?example_loop_start = Inr l" and
    p': "p' = p\<lparr>hypo_stacks := l_hypo_stacks l, unknown_plays := l_unknown_plays l\<rparr>" and
    w: "w = warned l"
    by (auto simp: update_hypo_stacks_def Let_def split: sum.splits)
  have linked: "linkedOrders env s p' = linkedOrders env s p"
    unfolding p' linkedOrders_def using assms(1) by simp
  have "update_loop env s p' (linkedOrders env s p') ?example_loop_start = Inr l"
    unfolding linked unfolding p' by (simp add: update_loop_frame loop)
  then show ?thesis
    by (simp add: update_hypo_stacks_def p' w)
qed

theorem update_hypo_stacks_idempotent_witness:
  "update_hypo_stacks example_player_env example_state example_common
     = Inr (example_common\<lparr>hypo_stacks := [3, 2, 0], unknown_plays := {0}\<rparr>, [])
   \<and> update_hypo_stacks example_player_env example_state
         (example_common\<lparr>hypo_stacks := [3, 2, 0], unknown_plays := {0}\<rparr>)
     = Inr (example_common\<lparr>hypo_stacks := [3, 2, 0], unknown_plays := {0}\<rparr>, [])"
proof -
  have frame: "\<forall>h u i. unknownIdentitiesOf example_player_env example_state
                            (example_common\<lparr>hypo_stacks := h, unknown_plays := u\<rparr>) i
                        = unknownIdentitiesOf example_player_env example_state example_common i"
    by (simp add: example_player_env_def util_env.defs player_env.defs)
  from update_hypo_stacks_idempotent [OF frame example_run] example_run show ?thesis
    by simp
qed

subsection \<open>A discarded connecting card\<close>

lemma others_waiting_alone:
  assumes "i < length wcs" and "i \<in> set to_remove"
    and "\<forall>j<length wcs. j \<noteq> i \<longrightarrow> action_index (wcs ! j) \<noteq> action_index (wcs ! i)"
  shows "\<not> others_waiting wcs (action_index (wcs ! i)) to_remove"
  using assms by (auto simp: others_waiting_def list_ex_iff in_set_enumerate_eq)














subsection \<open>The clue that is found\<close>















lemma example_touched:
  "cardTouched (identity_of (mk_card 1 1 7)) no_variant \<lparr>clue_type = COLOUR, clue_value = 1, clue_target = 2\<rparr>
   = Inr True"
  "cardTouched (identity_of (mk_card 1 1 7)) no_variant \<lparr>clue_type = RANK, clue_value = 1, clue_target = 2\<rparr>
   = Inr True"
  by (simp_all add: cardTouched_def identity_of_def mk_card_def no_variant_def js_index_def js_match_def
      whitish_def rainbowish_def brownish_def pinkish_def)









end
